theory Spec2Isabelle
  imports Complex_Main
begin

section \<open>Numbers\<close>

text \<open>
  A JavaScript number: a finite float64 value, given by the real number it stands for, or
  one of the three non-finite values. The sign of zero is not modelled.
\<close>

datatype jsnum = Num real | PInf | NInf | NaN

text \<open>
  Rounding of a real number to the nearest value of a binary floating-point format, ties
  to the even significand. The format has precision \<open>p\<close>, its least positive value is
  \<open>2\<close> to the power \<open>qmin\<close>, and what rounds to \<open>2\<close> to the power \<open>emax\<close> or beyond
  overflows to an infinity. \<open>roundHalfEven\<close> rounds to the nearest integer, ties to even;
  \<open>pow2 q\<close> is \<open>2\<close> to the integer power \<open>q\<close>.
\<close>

definition roundHalfEven :: "real \<Rightarrow> int" where
  "roundHalfEven y =
     (let a = \<bar>y\<bar>;
          f = \<lfloor>a\<rfloor>;
          n = (if a - of_int f < 1 / 2 then f
               else if 1 / 2 < a - of_int f then f + 1
               else if even f then f else f + 1)
      in if y < 0 then - n else n)"

definition pow2 :: "int \<Rightarrow> real" where
  "pow2 q = (if 0 \<le> q then 2 ^ nat q else 1 / 2 ^ nat (- q))"

definition roundFloat :: "nat \<Rightarrow> int \<Rightarrow> nat \<Rightarrow> real \<Rightarrow> jsnum" where
  "roundFloat p qmin emax x =
     (if x = 0 then Num 0
      else let q = max (\<lfloor>log 2 \<bar>x\<bar>\<rfloor> - int p + 1) qmin;
               v = of_int (roundHalfEven (x / pow2 q)) * pow2 q
           in if 2 ^ emax \<le> \<bar>v\<bar> then (if 0 < x then PInf else NInf) else Num v)"

text \<open>The float64 and the float32 nearest to a real number.\<close>

definition float64 :: "real \<Rightarrow> jsnum" where
  "float64 = roundFloat 53 (- 1074) 1024"

definition float32 :: "real \<Rightarrow> jsnum" where
  "float32 = roundFloat 24 (- 149) 128"

text \<open>
  The arithmetic of JavaScript numbers: the exact result, rounded to float64. Negation is
  exact.
\<close>

instantiation jsnum :: "{uminus, plus, minus, times, inverse}"
begin

fun uminus_jsnum :: "jsnum \<Rightarrow> jsnum" where
  "uminus_jsnum (Num a) = Num (- a)"
| "uminus_jsnum PInf = NInf"
| "uminus_jsnum NInf = PInf"
| "uminus_jsnum NaN = NaN"

fun plus_jsnum :: "jsnum \<Rightarrow> jsnum \<Rightarrow> jsnum" where
  "plus_jsnum NaN _ = NaN"
| "plus_jsnum _ NaN = NaN"
| "plus_jsnum (Num a) (Num b) = float64 (a + b)"
| "plus_jsnum (Num a) PInf = PInf"
| "plus_jsnum (Num a) NInf = NInf"
| "plus_jsnum PInf (Num b) = PInf"
| "plus_jsnum NInf (Num b) = NInf"
| "plus_jsnum PInf PInf = PInf"
| "plus_jsnum NInf NInf = NInf"
| "plus_jsnum PInf NInf = NaN"
| "plus_jsnum NInf PInf = NaN"

definition minus_jsnum :: "jsnum \<Rightarrow> jsnum \<Rightarrow> jsnum" where
  "minus_jsnum a b = a + (- b)"

fun times_jsnum :: "jsnum \<Rightarrow> jsnum \<Rightarrow> jsnum" where
  "times_jsnum NaN _ = NaN"
| "times_jsnum _ NaN = NaN"
| "times_jsnum (Num a) (Num b) = float64 (a * b)"
| "times_jsnum (Num a) PInf = (if a = 0 then NaN else if 0 < a then PInf else NInf)"
| "times_jsnum (Num a) NInf = (if a = 0 then NaN else if 0 < a then NInf else PInf)"
| "times_jsnum PInf (Num b) = (if b = 0 then NaN else if 0 < b then PInf else NInf)"
| "times_jsnum NInf (Num b) = (if b = 0 then NaN else if 0 < b then NInf else PInf)"
| "times_jsnum PInf PInf = PInf"
| "times_jsnum NInf NInf = PInf"
| "times_jsnum PInf NInf = NInf"
| "times_jsnum NInf PInf = NInf"

fun divide_jsnum :: "jsnum \<Rightarrow> jsnum \<Rightarrow> jsnum" where
  "divide_jsnum NaN _ = NaN"
| "divide_jsnum _ NaN = NaN"
| "divide_jsnum (Num a) (Num b) =
     (if b = 0 then (if a = 0 then NaN else if 0 < a then PInf else NInf)
      else float64 (a / b))"
| "divide_jsnum (Num a) PInf = Num 0"
| "divide_jsnum (Num a) NInf = Num 0"
| "divide_jsnum PInf (Num b) = (if 0 \<le> b then PInf else NInf)"
| "divide_jsnum NInf (Num b) = (if 0 \<le> b then NInf else PInf)"
| "divide_jsnum PInf PInf = NaN"
| "divide_jsnum NInf NInf = NaN"
| "divide_jsnum PInf NInf = NaN"
| "divide_jsnum NInf PInf = NaN"

definition inverse_jsnum :: "jsnum \<Rightarrow> jsnum" where
  "inverse_jsnum a = divide (Num 1) a"

instance ..

end

text \<open>
  \<^verbatim>\<open>Math.PI\<close> is the float64 nearest to \<open>\<pi>\<close>, 884279719003555 / 2^48. ECMAScript leaves the
  precision of \<^verbatim>\<open>Math.cos\<close> and \<^verbatim>\<open>Math.sin\<close> to the implementation; the model takes the
  float64 nearest to the exact value. Both are \<open>NaN\<close> at an infinity.
\<close>

definition Math_PI :: jsnum where
  "Math_PI = Num (884279719003555 / 281474976710656)"

fun Math_cos :: "jsnum \<Rightarrow> jsnum" where
  "Math_cos (Num a) = float64 (cos a)"
| "Math_cos _ = NaN"

fun Math_sin :: "jsnum \<Rightarrow> jsnum" where
  "Math_sin (Num a) = float64 (sin a)"
| "Math_sin _ = NaN"

section \<open>Typed arrays and vectors\<close>

text \<open>
  A \<^verbatim>\<open>Float32Array\<close> is the list of its elements. Indexing past the end does not
  fail in JavaScript: the value is \<^verbatim>\<open>undefined\<close>, here \<open>None\<close>.
\<close>

type_synonym float32array = "jsnum list"

definition element :: "float32array \<Rightarrow> nat \<Rightarrow> jsnum option" where
  "element xs i = (if i < length xs then Some (xs ! i) else None)"

text \<open>
  A \<^verbatim>\<open>glmatrix.vec2\<close> is a two-element \<^verbatim>\<open>Float32Array\<close>.
  \<^verbatim>\<open>glmatrix.vec2.clone([a, b])\<close> allocates a new one and stores \<open>a\<close> and \<open>b\<close> in it.
  \<open>toFloat32\<close> is what an element holds after a value is stored in it: \<open>NaN\<close> for
  \<^verbatim>\<open>undefined\<close>, and otherwise the float32 nearest to the number, which is the number itself
  when it was read from a \<^verbatim>\<open>Float32Array\<close>. The result of \<^verbatim>\<open>clone\<close> is never \<^verbatim>\<open>null\<close>.
\<close>

type_synonym vec2 = "jsnum \<times> jsnum"

fun toFloat32 :: "jsnum option \<Rightarrow> jsnum" where
  "toFloat32 None = NaN"
| "toFloat32 (Some (Num a)) = float32 a"
| "toFloat32 (Some x) = x"

definition vec2_clone :: "jsnum option \<Rightarrow> jsnum option \<Rightarrow> vec2" where
  "vec2_clone a b = (toFloat32 a, toFloat32 b)"

section \<open>The drawing surface\<close>

text \<open>
  The calls and property assignments that the debugger makes on the canvas's
  \<^verbatim>\<open>CanvasRenderingContext2D\<close>. A drawing routine is modelled by the list of calls it
  makes, in order.
\<close>

datatype call =
    ClearRect jsnum jsnum jsnum jsnum
  | Save
  | Restore
  | Translate jsnum jsnum
  | Scale jsnum jsnum
  | SetFont string
  | SetLineWidth jsnum
  | SetStrokeStyle string
  | SetFillStyle string
  | SetLineDash "jsnum list"
  | BeginPath
  | MoveTo jsnum jsnum
  | LineTo jsnum jsnum
  | QuadraticCurveTo jsnum jsnum jsnum jsnum
  | Arc jsnum jsnum jsnum jsnum jsnum
  | Stroke
  | Fill

section \<open>Constants of mesh-debugger.ts\<close>

definition POINT_LABEL_FONT :: string where
  "POINT_LABEL_FONT = ''sans-serif''"

definition POINT_RADIUS :: jsnum where
  "POINT_RADIUS = Num 2"

definition SEGMENT_POINT_RADIUS :: jsnum where
  "SEGMENT_POINT_RADIUS = Num 3"

definition SEGMENT_STROKE_WIDTH :: jsnum where
  "SEGMENT_STROKE_WIDTH = Num 1"

definition SEGMENT_CONTROL_POINT_STROKE_WIDTH :: jsnum where
  "SEGMENT_CONTROL_POINT_STROKE_WIDTH = Num 1"

datatype NormalType = Edge | BVertex

fun NORMAL_LENGTHS :: "NormalType \<Rightarrow> jsnum" where
  "NORMAL_LENGTHS BVertex = Num 10"
| "NORMAL_LENGTHS Edge = Num 14"

definition NORMAL_ARROWHEAD_LENGTH :: jsnum where
  "NORMAL_ARROWHEAD_LENGTH = Num 4"

definition NORMAL_ARROWHEAD_ANGLE :: jsnum where
  "NORMAL_ARROWHEAD_ANGLE = Math_PI * Num 5 / Num 6"

definition SEGMENT_POINT_FILL_STYLE :: string where
  "SEGMENT_POINT_FILL_STYLE = ''rgb(0, 0, 128)''"

definition LIGHT_STROKE_STYLE :: string where
  "LIGHT_STROKE_STYLE = ''rgb(192, 192, 192)''"

definition LINE_STROKE_STYLE :: string where
  "LINE_STROKE_STYLE = ''rgb(0, 128, 0)''"

definition CURVE_STROKE_STYLE :: string where
  "CURVE_STROKE_STYLE = ''rgb(128, 0, 0)''"

definition SEGMENT_LINE_STROKE_STYLE :: string where
  "SEGMENT_LINE_STROKE_STYLE = ''rgb(128, 192, 128)''"

definition SEGMENT_CONTROL_POINT_FILL_STYLE :: string where
  "SEGMENT_CONTROL_POINT_FILL_STYLE = ''rgb(255, 255, 255)''"

definition SEGMENT_CONTROL_POINT_STROKE_STYLE :: string where
  "SEGMENT_CONTROL_POINT_STROKE_STYLE = ''rgb(0, 0, 128)''"

definition SEGMENT_CONTROL_POINT_HULL_STROKE_STYLE :: string where
  "SEGMENT_CONTROL_POINT_HULL_STROKE_STYLE = ''rgba(128, 128, 128, 0.5)''"

fun NORMAL_STROKE_STYLES :: "NormalType \<Rightarrow> string" where
  "NORMAL_STROKE_STYLES BVertex = ''#e6aa00''"
| "NORMAL_STROKE_STYLES Edge = ''#cc5500''"

section \<open>Drawing routines\<close>

text \<open>\<^verbatim>\<open>getPosition\<close>: the vertex \<open>vertexIndex\<close> of B-quad \<open>bQuadIndex\<close>, six vertices to a B-quad.\<close>

definition getPosition :: "float32array \<Rightarrow> nat \<Rightarrow> nat \<Rightarrow> vec2" where
  "getPosition positions bQuadIndex vertexIndex =
     vec2_clone (element positions ((bQuadIndex * 6 + vertexIndex) * 2 + 0))
                (element positions ((bQuadIndex * 6 + vertexIndex) * 2 + 1))"

definition drawVertexIfNecessary :: "vec2 \<Rightarrow> jsnum \<Rightarrow> call list" where
  "drawVertexIfNecessary position invScaleFactor =
     [BeginPath,
      MoveTo (fst position) (- snd position),
      Arc (fst position) (- snd position) (POINT_RADIUS * invScaleFactor) (Num 0)
          (Num 2 * Math_PI),
      Fill]"

definition drawSegmentVertex :: "vec2 \<Rightarrow> jsnum \<Rightarrow> call list" where
  "drawSegmentVertex position invScaleFactor =
     [Save,
      SetFillStyle SEGMENT_POINT_FILL_STYLE,
      SetLineWidth (invScaleFactor * SEGMENT_STROKE_WIDTH),
      BeginPath,
      Arc (fst position) (- snd position) (SEGMENT_POINT_RADIUS * invScaleFactor) (Num 0)
          (Num 2 * Math_PI),
      Fill,
      Restore]"

definition drawSegmentControlPoint :: "vec2 \<Rightarrow> jsnum \<Rightarrow> call list" where
  "drawSegmentControlPoint position invScaleFactor =
     [Save,
      SetStrokeStyle SEGMENT_CONTROL_POINT_STROKE_STYLE,
      SetFillStyle SEGMENT_CONTROL_POINT_FILL_STYLE,
      SetLineWidth (invScaleFactor * SEGMENT_CONTROL_POINT_STROKE_WIDTH),
      BeginPath,
      Arc (fst position) (- snd position) (SEGMENT_POINT_RADIUS * invScaleFactor) (Num 0)
          (Num 2 * Math_PI),
      Fill,
      Stroke,
      Restore]"

definition drawNormal :: "vec2 \<Rightarrow> vec2 \<Rightarrow> jsnum \<Rightarrow> NormalType \<Rightarrow> call list" where
  "drawNormal position normalVector invScaleFactor normalType =
     (let length = invScaleFactor * NORMAL_LENGTHS normalType;
          arrowheadLength = invScaleFactor * NORMAL_ARROWHEAD_LENGTH;
          endpoint = vec2_clone (Some (fst position + length * fst normalVector))
                                (Some (- snd position + length * - snd normalVector))
      in [Save,
          SetStrokeStyle (NORMAL_STROKE_STYLES normalType),
          BeginPath,
          MoveTo (fst position) (- snd position),
          LineTo (fst endpoint) (snd endpoint),
          LineTo (fst endpoint + arrowheadLength *
                    (Math_cos NORMAL_ARROWHEAD_ANGLE * fst normalVector +
                     Math_sin NORMAL_ARROWHEAD_ANGLE * snd normalVector))
                 (snd endpoint + arrowheadLength *
                    (Math_sin NORMAL_ARROWHEAD_ANGLE * fst normalVector -
                     Math_cos NORMAL_ARROWHEAD_ANGLE * snd normalVector)),
          Stroke,
          BeginPath,
          MoveTo (fst endpoint) (snd endpoint),
          LineTo (fst endpoint + arrowheadLength *
                    (Math_cos NORMAL_ARROWHEAD_ANGLE * fst normalVector -
                     Math_sin NORMAL_ARROWHEAD_ANGLE * snd normalVector))
                 (snd endpoint - arrowheadLength *
                    (Math_cos NORMAL_ARROWHEAD_ANGLE * snd normalVector +
                     Math_sin NORMAL_ARROWHEAD_ANGLE * fst normalVector)),
          Stroke,
          Restore])"

text \<open>
  \<^verbatim>\<open>drawSegmentVertices\<close>. \<open>offsetAt\<close> is \<^verbatim>\<open>endpointOffsets[k]\<close>, \<^verbatim>\<open>undefined\<close> past the end
  of the array; \<open>slot buffer start offset c\<close> is \<^verbatim>\<open>buffer[start + offset * 2 + c]\<close>, which is
  \<^verbatim>\<open>undefined\<close> when the offset is (the index is then \<open>NaN\<close>) and past the end of the
  buffer.
\<close>

definition offsetAt :: "nat list \<Rightarrow> nat \<Rightarrow> nat option" where
  "offsetAt endpointOffsets k =
     (if k < length endpointOffsets then Some (endpointOffsets ! k) else None)"

definition slot :: "float32array \<Rightarrow> nat \<Rightarrow> nat option \<Rightarrow> nat \<Rightarrow> jsnum option" where
  "slot buffer start offset c =
     (case offset of None \<Rightarrow> None | Some k \<Rightarrow> element buffer (start + k * 2 + c))"

text \<open>The body of the loop of \<^verbatim>\<open>drawSegmentVertices\<close>, for the segment \<open>segmentIndex\<close>.\<close>

definition drawSegment ::
  "float32array \<Rightarrow> float32array \<Rightarrow> nat list \<Rightarrow> nat option \<Rightarrow> nat \<Rightarrow> jsnum \<Rightarrow>
   bool \<Rightarrow> bool \<Rightarrow> bool \<Rightarrow> nat \<Rightarrow> call list" where
  "drawSegment segments normals endpointOffsets controlPointOffset segmentSize invScaleFactor
     drawControl drawNormals drawSegments segmentIndex =
     (let positionStartOffset = segmentSize * 2 * segmentIndex;
          normalStartOffset = segmentSize * 2 * segmentIndex;
          position0 = vec2_clone (slot segments positionStartOffset (offsetAt endpointOffsets 0) 0)
                                 (slot segments positionStartOffset (offsetAt endpointOffsets 0) 1);
          position1 = vec2_clone (slot segments positionStartOffset (offsetAt endpointOffsets 1) 0)
                                 (slot segments positionStartOffset (offsetAt endpointOffsets 1) 1);
          controlPoint =
            (if controlPointOffset \<noteq> None
             then Some (vec2_clone (slot segments positionStartOffset controlPointOffset 0)
                                   (slot segments positionStartOffset controlPointOffset 1))
             else None);
          normal0 = vec2_clone (slot normals normalStartOffset (offsetAt endpointOffsets 0) 0)
                               (slot normals normalStartOffset (offsetAt endpointOffsets 0) 1);
          normal1 = vec2_clone (slot normals normalStartOffset (offsetAt endpointOffsets 1) 0)
                               (slot normals normalStartOffset (offsetAt endpointOffsets 1) 1);
          normalControlPoint =
            (if controlPointOffset \<noteq> None
             then Some (vec2_clone (slot normals normalStartOffset controlPointOffset 0)
                                   (slot normals normalStartOffset controlPointOffset 1))
             else None)
      in (if drawNormals
          then drawNormal position0 normal0 invScaleFactor Edge @
               drawNormal position1 normal1 invScaleFactor Edge @
               (if drawControl \<and> controlPoint \<noteq> None \<and> normalControlPoint \<noteq> None
                then drawNormal (the controlPoint) (the normalControlPoint) invScaleFactor Edge
                else [])
          else []) @
         drawSegmentVertex position0 invScaleFactor @
         drawSegmentVertex position1 invScaleFactor @
         (if drawControl \<and> controlPoint \<noteq> None
          then [Save,
                SetStrokeStyle SEGMENT_CONTROL_POINT_HULL_STROKE_STYLE,
                SetLineDash [Num 2 * invScaleFactor, Num 2 * invScaleFactor],
                BeginPath,
                MoveTo (fst position0) (- snd position0),
                LineTo (fst (the controlPoint)) (- snd (the controlPoint)),
                LineTo (fst position1) (- snd position1),
                Stroke,
                Restore] @
               drawSegmentControlPoint (the controlPoint) invScaleFactor
          else []) @
         (if drawSegments
          then [Save,
                SetStrokeStyle SEGMENT_LINE_STROKE_STYLE,
                BeginPath,
                MoveTo (fst position0) (- snd position0),
                LineTo (fst position1) (- snd position1),
                Stroke,
                Restore]
          else []))"

definition drawSegmentVertices ::
  "float32array \<Rightarrow> float32array \<Rightarrow> nat \<Rightarrow> nat list \<Rightarrow> nat option \<Rightarrow> nat \<Rightarrow> jsnum \<Rightarrow>
   bool \<Rightarrow> bool \<Rightarrow> bool \<Rightarrow> call list" where
  "drawSegmentVertices segments normals segmentCount endpointOffsets controlPointOffset
     segmentSize invScaleFactor drawControl drawNormals drawSegments =
     concat (map (drawSegment segments normals endpointOffsets controlPointOffset segmentSize
                    invScaleFactor drawControl drawNormals drawSegments)
                 [0..<segmentCount])"

section \<open>The mesh debugger's view\<close>

text \<open>
  The fields of \<^verbatim>\<open>PathfinderMeshData\<close> that \<^verbatim>\<open>redraw\<close> reads. The buffers are given as the
  \<^verbatim>\<open>Float32Array\<close> views that \<^verbatim>\<open>redraw\<close> makes of them; the counts are natural numbers.
\<close>

record PathfinderMeshData =
  bQuadVertexPositions :: float32array
  bQuadVertexPositionCount :: nat
  stencilSegments :: float32array
  stencilNormals :: float32array
  stencilSegmentCount :: nat

record OrthographicCamera =
  translation :: vec2
  scale :: jsnum

text \<open>
  The canvas: \<open>context2d\<close> is what \<^verbatim>\<open>getContext('2d')\<close> returns, \<open>None\<close> for \<^verbatim>\<open>null\<close>, and
  otherwise the context, as the list of the calls it has received so far.
\<close>

record Canvas =
  width :: jsnum
  height :: jsnum
  context2d :: "call list option"

text \<open>
  The view, with what \<^verbatim>\<open>redraw\<close> and \<^verbatim>\<open>onKeyPress\<close> read outside it:
  \<open>meshes\<close> is \<^verbatim>\<open>appController.meshes\<close>, \<open>devicePixelRatio\<close> is \<^verbatim>\<open>window.devicePixelRatio\<close>,
  \<open>dirtySignals\<close> counts the calls of \<^verbatim>\<open>setDirty\<close>.
\<close>

record MeshDebuggerView =
  meshes :: "PathfinderMeshData option"
  camera :: OrthographicCamera
  canvas :: Canvas
  devicePixelRatio :: jsnum
  drawControl :: bool
  drawNormals :: bool
  drawVertices :: bool
  drawSegments :: bool
  dirtySignals :: nat

datatype error = UnexpectedNull

text \<open>
  Modelled from the spec: \<^verbatim>\<open>unwrapNull\<close> is imported from \<^verbatim>\<open>./utils\<close>, which is not among
  the sources. It returns its argument and throws when the argument is \<^verbatim>\<open>null\<close>.
\<close>

definition unwrapNull :: "'a option \<Rightarrow> error + 'a" where
  "unwrapNull x = (case x of None \<Rightarrow> Inl UnexpectedNull | Some a \<Rightarrow> Inr a)"

text \<open>
  Modelled from the spec: \<^verbatim>\<open>setDirty\<close> is a method of \<^verbatim>\<open>PathfinderView\<close> (\<^verbatim>\<open>./view\<close>), which
  is not among the sources. It is the redraw request, the dirty signal to the render
  scheduler; the model counts the signals.
\<close>

definition setDirty :: "MeshDebuggerView \<Rightarrow> MeshDebuggerView" where
  "setDirty this = this\<lparr>dirtySignals := Suc (dirtySignals this)\<rparr>"

text \<open>
  Modelled from the spec: \<^verbatim>\<open>super.redraw()\<close> is \<^verbatim>\<open>PathfinderView.redraw\<close> (\<^verbatim>\<open>./view\<close>), which
  is not among the sources. The view lifecycle is an external collaborator and the core
  is the sole writer to the drawing surface during a redraw: the call leaves the fields
  of the model as they are.
\<close>

definition PathfinderView_redraw :: "MeshDebuggerView \<Rightarrow> MeshDebuggerView" where
  "PathfinderView_redraw this = this"

text \<open>
  The body of the B-quad loop of \<^verbatim>\<open>redraw\<close>: the corner dots, drawn when
  \<^verbatim>\<open>this.drawVertices\<close> is set, and the four edges. \<^verbatim>\<open>getPosition\<close> returns a
  \<^verbatim>\<open>glmatrix.vec2\<close>; the test \<^verbatim>\<open>p != null\<close> on it is \<open>Some p \<noteq> None\<close>.
\<close>

definition redraw_bQuad :: "bool \<Rightarrow> float32array \<Rightarrow> jsnum \<Rightarrow> nat \<Rightarrow> call list" where
  "redraw_bQuad this_drawVertices positions invScaleFactor bQuadIndex =
     (let upperLeftPosition = getPosition positions bQuadIndex 0;
          upperControlPointPosition = getPosition positions bQuadIndex 1;
          upperRightPosition = getPosition positions bQuadIndex 2;
          lowerRightPosition = getPosition positions bQuadIndex 3;
          lowerControlPointPosition = getPosition positions bQuadIndex 4;
          lowerLeftPosition = getPosition positions bQuadIndex 5
      in (if this_drawVertices
          then drawVertexIfNecessary upperLeftPosition invScaleFactor @
               drawVertexIfNecessary upperRightPosition invScaleFactor @
               drawVertexIfNecessary lowerLeftPosition invScaleFactor @
               drawVertexIfNecessary lowerRightPosition invScaleFactor
          else []) @
         [BeginPath,
          MoveTo (fst upperLeftPosition) (- snd upperLeftPosition)] @
         (if Some upperControlPointPosition \<noteq> None
          then [SetStrokeStyle CURVE_STROKE_STYLE,
                QuadraticCurveTo (fst upperControlPointPosition) (- snd upperControlPointPosition)
                                 (fst upperRightPosition) (- snd upperRightPosition)]
          else [SetStrokeStyle LINE_STROKE_STYLE,
                LineTo (fst upperRightPosition) (- snd upperRightPosition)]) @
         [Stroke,
          SetStrokeStyle LIGHT_STROKE_STYLE,
          BeginPath,
          MoveTo (fst upperRightPosition) (- snd upperRightPosition),
          LineTo (fst lowerRightPosition) (- snd lowerRightPosition),
          Stroke,
          BeginPath,
          MoveTo (fst lowerRightPosition) (- snd lowerRightPosition)] @
         (if Some lowerControlPointPosition \<noteq> None
          then [SetStrokeStyle CURVE_STROKE_STYLE,
                QuadraticCurveTo (fst lowerControlPointPosition) (- snd lowerControlPointPosition)
                                 (fst lowerLeftPosition) (- snd lowerLeftPosition)]
          else [SetStrokeStyle LINE_STROKE_STYLE,
                LineTo (fst lowerLeftPosition) (- snd lowerLeftPosition)]) @
         [Stroke,
          SetStrokeStyle LIGHT_STROKE_STYLE,
          BeginPath,
          MoveTo (fst lowerLeftPosition) (- snd lowerLeftPosition),
          LineTo (fst upperLeftPosition) (- snd upperLeftPosition),
          Stroke])"

text \<open>
  The calls \<^verbatim>\<open>redraw\<close> makes on the context once it has a mesh and the context, from
  \<^verbatim>\<open>clearRect\<close> to the last \<^verbatim>\<open>restore\<close>.
\<close>

definition redraw_calls :: "MeshDebuggerView \<Rightarrow> PathfinderMeshData \<Rightarrow> call list" where
  "redraw_calls this mesh =
     (let invScaleFactor = devicePixelRatio this / scale (camera this)
      in [ClearRect (Num 0) (Num 0) (width (canvas this)) (height (canvas this)),
          Save,
          Translate (fst (translation (camera this)))
                    (height (canvas this) - snd (translation (camera this))),
          Scale (scale (camera this)) (scale (camera this)),
          SetFont (''12px '' @ POINT_LABEL_FONT),
          SetLineWidth invScaleFactor] @
         concat (map (redraw_bQuad (drawVertices this) (bQuadVertexPositions mesh) invScaleFactor)
                     [0..<bQuadVertexPositionCount mesh]) @
         (if drawVertices this
          then drawSegmentVertices (stencilSegments mesh) (stencilNormals mesh)
                 (stencilSegmentCount mesh) [0, 2] (Some 1) 3 invScaleFactor
                 (drawControl this) (drawNormals this) (drawSegments this)
          else []) @
         [Restore])"

text \<open>
  \<^verbatim>\<open>MeshDebuggerView.redraw\<close>: \<open>Inl\<close> is the exception of \<^verbatim>\<open>unwrapNull\<close>, thrown before
  any call on the context; \<open>Inr\<close> is the view on return.
\<close>

definition redraw :: "MeshDebuggerView \<Rightarrow> error + MeshDebuggerView" where
  "redraw this0 =
     (let this = PathfinderView_redraw this0
      in case meshes this of
           None \<Rightarrow> Inr this
         | Some mesh \<Rightarrow>
             (case unwrapNull (context2d (canvas this)) of
                Inl e \<Rightarrow> Inl e
              | Inr context \<Rightarrow>
                  Inr (this\<lparr>canvas := (canvas this)
                         \<lparr>context2d := Some (context @ redraw_calls this mesh)\<rparr>\<rparr>)))"

record KeyboardEvent =
  key :: string

definition onKeyPress :: "KeyboardEvent \<Rightarrow> MeshDebuggerView \<Rightarrow> MeshDebuggerView" where
  "onKeyPress event this =
     setDirty
       (if key event = ''c'' then this\<lparr>drawControl := \<not> drawControl this\<rparr>
        else if key event = ''n'' then this\<lparr>drawNormals := \<not> drawNormals this\<rparr>
        else if key event = ''v'' then this\<lparr>drawVertices := \<not> drawVertices this\<rparr>
        else if key event = ''r''
          then this\<lparr>drawControl := True, drawNormals := True, drawVertices := True\<rparr>
        else this)"

section \<open>What the canvas shows\<close>

text \<open>
  The context of the canvas is the platform's. The model keeps of it what decides the pixels.
  The drawing state is the list of the transformations and property assignments in effect,
  in the order they were made: \<^verbatim>\<open>save\<close> pushes it on a stack and \<^verbatim>\<open>restore\<close> pops it from
  there (and does nothing on an empty stack). The current path is the list of the path
  calls since the last \<^verbatim>\<open>beginPath\<close>, each with the drawing state it was made in; it is not
  part of the drawing state. What the canvas shows is the list of the paint operations since
  the canvas was last cleared as a whole, each with the drawing state and the path it was
  made with. \<^verbatim>\<open>clearRect\<close> clears the canvas as a whole when the rectangle is the canvas and
  no transformation is in effect.
\<close>

record Context2D =
  drawingState :: "call list"
  savedStates :: "call list list"
  currentPath :: "(call \<times> call list) list"
  painted :: "(call \<times> call list \<times> (call \<times> call list) list) list"

fun isTransform :: "call \<Rightarrow> bool" where
  "isTransform (Translate x y) = True"
| "isTransform (Scale x y) = True"
| "isTransform _ = False"

fun perform :: "jsnum \<times> jsnum \<Rightarrow> Context2D \<Rightarrow> call \<Rightarrow> Context2D" where
  "perform extent c (ClearRect x y w h) =
     (if filter isTransform (drawingState c) = [] \<and> x = Num 0 \<and> y = Num 0 \<and> (w, h) = extent
      then c\<lparr>painted := []\<rparr>
      else c\<lparr>painted := painted c @ [(ClearRect x y w h, drawingState c, [])]\<rparr>)"
| "perform extent c Save = c\<lparr>savedStates := drawingState c # savedStates c\<rparr>"
| "perform extent c Restore =
     (case savedStates c of
        [] \<Rightarrow> c
      | s # ss \<Rightarrow> c\<lparr>drawingState := s, savedStates := ss\<rparr>)"
| "perform extent c BeginPath = c\<lparr>currentPath := []\<rparr>"
| "perform extent c (MoveTo x y) =
     c\<lparr>currentPath := currentPath c @ [(MoveTo x y, drawingState c)]\<rparr>"
| "perform extent c (LineTo x y) =
     c\<lparr>currentPath := currentPath c @ [(LineTo x y, drawingState c)]\<rparr>"
| "perform extent c (QuadraticCurveTo cx cy x y) =
     c\<lparr>currentPath := currentPath c @ [(QuadraticCurveTo cx cy x y, drawingState c)]\<rparr>"
| "perform extent c (Arc x y r a b) =
     c\<lparr>currentPath := currentPath c @ [(Arc x y r a b, drawingState c)]\<rparr>"
| "perform extent c Stroke =
     c\<lparr>painted := painted c @ [(Stroke, drawingState c, currentPath c)]\<rparr>"
| "perform extent c Fill =
     c\<lparr>painted := painted c @ [(Fill, drawingState c, currentPath c)]\<rparr>"
| "perform extent c setting = c\<lparr>drawingState := drawingState c @ [setting]\<rparr>"

definition performAll :: "jsnum \<times> jsnum \<Rightarrow> Context2D \<Rightarrow> call list \<Rightarrow> Context2D" where
  "performAll extent c calls = foldl (perform extent) c calls"

text \<open>The context as \<^verbatim>\<open>getContext\<close> first returns it.\<close>

definition freshContext :: Context2D where
  "freshContext = \<lparr>drawingState = [], savedStates = [], currentPath = [], painted = []\<rparr>"

text \<open>
  Two properties of a list of calls. \<open>beginsPath b calls\<close>: every \<^verbatim>\<open>fill\<close> and \<^verbatim>\<open>stroke\<close> of
  the list comes after a \<^verbatim>\<open>beginPath\<close> of the list (or \<open>b\<close> holds). \<open>nesting d calls\<close>: the
  number of drawing states the list leaves saved when it starts with \<open>d\<close> of them, \<open>None\<close>
  when a \<^verbatim>\<open>restore\<close> of the list finds none.
\<close>

fun beginsPath :: "bool \<Rightarrow> call list \<Rightarrow> bool" where
  "beginsPath b [] = True"
| "beginsPath b (BeginPath # calls) = beginsPath True calls"
| "beginsPath b (Fill # calls) = (b \<and> beginsPath b calls)"
| "beginsPath b (Stroke # calls) = (b \<and> beginsPath b calls)"
| "beginsPath b (_ # calls) = beginsPath b calls"

fun nesting :: "nat \<Rightarrow> call list \<Rightarrow> nat option" where
  "nesting d [] = Some d"
| "nesting d (Save # calls) = nesting (Suc d) calls"
| "nesting d (Restore # calls) = (case d of 0 \<Rightarrow> None | Suc d' \<Rightarrow> nesting d' calls)"
| "nesting d (_ # calls) = nesting d calls"

section \<open>Notions used in the statements\<close>

text \<open>The four overlay toggles of a view.\<close>

definition overlayState :: "MeshDebuggerView \<Rightarrow> bool \<times> bool \<times> bool \<times> bool" where
  "overlayState this = (drawControl this, drawNormals this, drawVertices this, drawSegments this)"

text \<open>
  A view as the constructor leaves it: no mesh yet, the toggles at their defaults, no dirty
  signal; here with an untouched 640 by 480 canvas, the camera at the origin with scale 1
  and a device pixel ratio of 1.
\<close>

definition newView :: MeshDebuggerView where
  "newView =
     \<lparr>meshes = None,
      camera = \<lparr>translation = (Num 0, Num 0), scale = Num 1\<rparr>,
      canvas = \<lparr>width = Num 640, height = Num 480, context2d = Some []\<rparr>,
      devicePixelRatio = Num 1,
      drawControl = True, drawNormals = True, drawVertices = True, drawSegments = False,
      dirtySignals = 0\<rparr>"

text \<open>The calls the context of a view has received (none when there is no context).\<close>

definition received :: "MeshDebuggerView \<Rightarrow> call list" where
  "received this = (case context2d (canvas this) of None \<Rightarrow> [] | Some calls \<Rightarrow> calls)"

text \<open>The calls received between an earlier and a later state of a view.\<close>

definition emitted :: "MeshDebuggerView \<Rightarrow> MeshDebuggerView \<Rightarrow> call list" where
  "emitted before after = drop (length (received before)) (received after)"

text \<open>
  The state of the context of a view, and the pixels the view shows: the context has
  performed, from its creation, the calls it has received. A view is at rest when no
  drawing state is set and none is saved, as when the context is new.
\<close>

definition surface :: "MeshDebuggerView \<Rightarrow> Context2D" where
  "surface this =
     performAll (width (canvas this), height (canvas this)) freshContext (received this)"

definition pixels ::
  "MeshDebuggerView \<Rightarrow> (call \<times> call list \<times> (call \<times> call list) list) list" where
  "pixels this = painted (surface this)"

definition atRest :: "MeshDebuggerView \<Rightarrow> bool" where
  "atRest this = (drawingState (surface this) = [] \<and> savedStates (surface this) = [])"

text \<open>The four corner dots of a B-quad, as \<^verbatim>\<open>redraw\<close> draws them when \<^verbatim>\<open>drawVertices\<close> is set.\<close>

definition cornerDots :: "float32array \<Rightarrow> jsnum \<Rightarrow> nat \<Rightarrow> call list" where
  "cornerDots positions invScaleFactor bQuadIndex =
     drawVertexIfNecessary (getPosition positions bQuadIndex 0) invScaleFactor @
     drawVertexIfNecessary (getPosition positions bQuadIndex 2) invScaleFactor @
     drawVertexIfNecessary (getPosition positions bQuadIndex 5) invScaleFactor @
     drawVertexIfNecessary (getPosition positions bQuadIndex 3) invScaleFactor"

text \<open>The mirror image of a point in the x axis, and the points that a call is given.\<close>

definition flipY :: "vec2 \<Rightarrow> vec2" where
  "flipY p = (fst p, - snd p)"

fun callPoints :: "call \<Rightarrow> vec2 list" where
  "callPoints (MoveTo x y) = [(x, y)]"
| "callPoints (LineTo x y) = [(x, y)]"
| "callPoints (QuadraticCurveTo cx cy x y) = [(cx, cy), (x, y)]"
| "callPoints (Arc x y r a b) = [(x, y)]"
| "callPoints _ = []"

definition tracePoints :: "call list \<Rightarrow> vec2 list" where
  "tracePoints calls = concat (map callPoints calls)"

text \<open>
  The rotation of a vector by the angle \<open>a\<close>, computed in the arithmetic of the program
  with \<^verbatim>\<open>Math.cos\<close> and \<^verbatim>\<open>Math.sin\<close>.
\<close>

definition rotateJs :: "jsnum \<Rightarrow> vec2 \<Rightarrow> vec2" where
  "rotateJs a v =
     (Math_cos a * fst v - Math_sin a * snd v, Math_sin a * fst v + Math_cos a * snd v)"

text \<open>
  The arrow of a normal in the coordinates of the mesh, as the list of the points of its
  two paths: the anchor, the end of the shaft (the anchor plus the shaft length times the
  normal, kept in a \<^verbatim>\<open>vec2\<close>), the end of the first wing, the end of the shaft again and
  the end of the second wing. The wings are the normal, rotated by the arrowhead angle one
  way and the other and scaled to the arrowhead length, set at the end of the shaft.
\<close>

definition meshArrow :: "vec2 \<Rightarrow> vec2 \<Rightarrow> jsnum \<Rightarrow> NormalType \<Rightarrow> vec2 list" where
  "meshArrow position normalVector invScaleFactor normalType =
     (let shaft = invScaleFactor * NORMAL_LENGTHS normalType;
          arrowhead = invScaleFactor * NORMAL_ARROWHEAD_LENGTH;
          tip = vec2_clone (Some (fst position + shaft * fst normalVector))
                           (Some (snd position + shaft * snd normalVector));
          wing1 = rotateJs (- NORMAL_ARROWHEAD_ANGLE) normalVector;
          wing2 = rotateJs NORMAL_ARROWHEAD_ANGLE normalVector
      in [position,
          tip,
          (fst tip + arrowhead * fst wing1, snd tip + arrowhead * snd wing1),
          tip,
          (fst tip + arrowhead * fst wing2, snd tip + arrowhead * snd wing2)])"

text \<open>
  The point that \<^verbatim>\<open>drawSegmentVertices\<close> reads for the segment \<open>segmentIndex\<close> at the slot
  \<open>offset\<close> of a buffer, and the points of a segment in the coordinates of the mesh: its two
  endpoints, its control point, and the arrows of the normals at the three.
\<close>

definition segmentPoint :: "float32array \<Rightarrow> nat \<Rightarrow> nat \<Rightarrow> nat option \<Rightarrow> vec2" where
  "segmentPoint buffer segmentSize segmentIndex offset =
     vec2_clone (slot buffer (segmentSize * 2 * segmentIndex) offset 0)
                (slot buffer (segmentSize * 2 * segmentIndex) offset 1)"

definition segmentMeshPoints ::
  "float32array \<Rightarrow> float32array \<Rightarrow> nat list \<Rightarrow> nat option \<Rightarrow> nat \<Rightarrow> jsnum \<Rightarrow> nat \<Rightarrow>
   vec2 list" where
  "segmentMeshPoints segments normals endpointOffsets controlPointOffset segmentSize
     invScaleFactor segmentIndex =
     [segmentPoint segments segmentSize segmentIndex (offsetAt endpointOffsets 0),
      segmentPoint segments segmentSize segmentIndex (offsetAt endpointOffsets 1),
      segmentPoint segments segmentSize segmentIndex controlPointOffset] @
     meshArrow (segmentPoint segments segmentSize segmentIndex (offsetAt endpointOffsets 0))
               (segmentPoint normals segmentSize segmentIndex (offsetAt endpointOffsets 0))
               invScaleFactor Edge @
     meshArrow (segmentPoint segments segmentSize segmentIndex (offsetAt endpointOffsets 1))
               (segmentPoint normals segmentSize segmentIndex (offsetAt endpointOffsets 1))
               invScaleFactor Edge @
     meshArrow (segmentPoint segments segmentSize segmentIndex controlPointOffset)
               (segmentPoint normals segmentSize segmentIndex controlPointOffset)
               invScaleFactor Edge"

text \<open>
  A mesh of one B-quad and no segment. The corners are (0, 0), (10, 0), (10, -10) and
  (0, -10); both control point slots hold \<open>NaN\<close>.
\<close>

definition lineQuadMesh :: PathfinderMeshData where
  "lineQuadMesh =
     \<lparr>bQuadVertexPositions =
        [Num 0, Num 0, NaN, NaN, Num 10, Num 0, Num 10, Num (- 10), NaN, NaN, Num 0, Num (- 10)],
      bQuadVertexPositionCount = 1,
      stencilSegments = [], stencilNormals = [], stencilSegmentCount = 0\<rparr>"

text \<open>
  A mesh of no B-quad and one segment, from (1, 2) by the control point (3, 4) to (5, 6);
  the normal at each of the three points is (0, 1).
\<close>

definition segmentMesh :: PathfinderMeshData where
  "segmentMesh =
     \<lparr>bQuadVertexPositions = [],
      bQuadVertexPositionCount = 0,
      stencilSegments = [Num 1, Num 2, Num 3, Num 4, Num 5, Num 6],
      stencilNormals = [Num 0, Num 1, Num 0, Num 1, Num 0, Num 1],
      stencilSegmentCount = 1\<rparr>"

section \<open>Facts about the numbers\<close>

lemma roundHalfEven_of_int: "roundHalfEven (of_int m) = m"
  by (simp add: roundHalfEven_def Let_def)

lemma roundHalfEven_minus: "roundHalfEven (- y) = - roundHalfEven y"
proof -
  consider "y < 0" | "y = 0" | "0 < y" by linarith
  then show ?thesis
    by cases (simp_all add: roundHalfEven_def Let_def)
qed

lemma roundFloat_minus: "roundFloat p qmin emax (- x) = - roundFloat p qmin emax x"
  by (simp add: roundFloat_def Let_def roundHalfEven_minus)

lemma roundFloat_of_int:
  assumes "\<bar>n\<bar> < 2 ^ p" and "qmin \<le> 0" and "p \<le> emax"
  shows "roundFloat p qmin emax (of_int n) = Num (of_int n)"
proof (cases "n = 0")
  case True
  then show ?thesis by (simp add: roundFloat_def)
next
  case False
  define x :: real where "x = of_int n"
  have x0: "x \<noteq> 0" using False by (simp add: x_def)
  have ax: "\<bar>x\<bar> < 2 ^ p" using assms(1) unfolding x_def
    by (metis of_int_abs of_int_less_numeral_power_cancel_iff)
  have pos: "0 < \<bar>x\<bar>" using x0 by simp
  have "log 2 \<bar>x\<bar> < real p"
    using ax pos by (simp add: log_less_iff powr_realpow)
  then have "\<lfloor>log 2 \<bar>x\<bar>\<rfloor> < int p" by linarith
  then have qle: "max (\<lfloor>log 2 \<bar>x\<bar>\<rfloor> - int p + 1) qmin \<le> 0" using assms(2) by simp
  define q where "q = max (\<lfloor>log 2 \<bar>x\<bar>\<rfloor> - int p + 1) qmin"
  define k where "k = nat (- q)"
  have pq: "pow2 q = 1 / 2 ^ k"
    using qle unfolding q_def [symmetric] k_def pow2_def by (cases "q = 0") auto
  have "x / pow2 q = of_int (n * 2 ^ k)" by (simp add: pq x_def)
  then have r: "roundHalfEven (x / pow2 q) = n * 2 ^ k" by (simp only: roundHalfEven_of_int)
  have "of_int (roundHalfEven (x / pow2 q)) * pow2 q = of_int (n * 2 ^ k) * (1 / 2 ^ k)"
    by (subst r) (simp only: pq)
  then have v: "of_int (roundHalfEven (x / pow2 q)) * pow2 q = x"
    by (simp add: x_def)
  have "(2::real) ^ p \<le> 2 ^ emax" using assms(3) by simp
  then have small: "\<not> 2 ^ emax \<le> \<bar>x\<bar>" using ax by linarith
  show ?thesis
    unfolding x_def [symmetric] roundFloat_def q_def [symmetric] Let_def
    using x0 v small by simp
qed

text \<open>An integer below \<open>2^53\<close> in size is a float64, one below \<open>2^24\<close> is a float32.\<close>

lemma float64_of_int: "\<bar>n\<bar> < 2 ^ 53 \<Longrightarrow> float64 (of_int n) = Num (of_int n)"
  unfolding float64_def by (rule roundFloat_of_int) simp_all

lemma float32_of_int: "\<bar>n\<bar> < 2 ^ 24 \<Longrightarrow> float32 (of_int n) = Num (of_int n)"
  unfolding float32_def by (rule roundFloat_of_int) simp_all

lemma float64_small [simp]:
  "float64 0 = Num 0" "float64 1 = Num 1"
  "numeral k < (2::int) ^ 53 \<Longrightarrow> float64 (numeral k) = Num (numeral k)"
  "numeral k < (2::int) ^ 53 \<Longrightarrow> float64 (- numeral k) = Num (- numeral k)"
  using float64_of_int [of 0] float64_of_int [of 1] float64_of_int [of "numeral k"]
    float64_of_int [of "- numeral k"]
  by simp_all

lemma float32_small [simp]:
  "float32 0 = Num 0" "float32 1 = Num 1"
  "numeral k < (2::int) ^ 24 \<Longrightarrow> float32 (numeral k) = Num (numeral k)"
  "numeral k < (2::int) ^ 24 \<Longrightarrow> float32 (- numeral k) = Num (- numeral k)"
  using float32_of_int [of 0] float32_of_int [of 1] float32_of_int [of "numeral k"]
    float32_of_int [of "- numeral k"]
  by simp_all

lemma float64_minus: "float64 (- x) = - float64 x"
  by (simp add: float64_def roundFloat_minus)

lemma float32_minus: "float32 (- x) = - float32 x"
  by (simp add: float32_def roundFloat_minus)

lemma jsnum_minus_minus: "- (- a) = (a :: jsnum)"
  by (cases a) simp_all

lemma jsnum_minus_zero: "- Num 0 = Num 0"
  by simp

lemma jsnum_add_commute: "a + b = b + (a :: jsnum)"
  by (cases a; cases b) (simp_all add: add.commute)

lemma jsnum_minus_add: "- (a + b) = - a + - (b :: jsnum)"
proof (cases a; cases b)
  fix x y
  assume "a = Num x" "b = Num y"
  then show ?thesis using float64_minus [of "x + y"] by simp
qed simp_all

lemma jsnum_mult_minus: "a * - b = - (a * (b :: jsnum))"
proof (cases a; cases b)
  fix x y
  assume "a = Num x" "b = Num y"
  then show ?thesis using float64_minus [of "x * y"] by simp
qed simp_all

lemma jsnum_minus_mult: "- a * b = - (a * (b :: jsnum))"
proof (cases a; cases b)
  fix x y
  assume "a = Num x" "b = Num y"
  then show ?thesis using float64_minus [of "x * y"] by simp
qed simp_all

lemma toFloat32_minus: "toFloat32 (Some (- a)) = - toFloat32 (Some a)"
  by (cases a) (simp_all add: float32_minus)

lemma Math_cos_minus: "Math_cos (- a) = Math_cos a"
  by (cases a) simp_all

lemma Math_sin_minus: "Math_sin (- a) = - Math_sin a"
  by (cases a) (simp_all add: float64_minus)







section \<open>Key presses\<close>

text \<open>
  C5. Whatever the state before, pressing \<^verbatim>\<open>r\<close> leaves \<^verbatim>\<open>drawControl\<close>, \<^verbatim>\<open>drawNormals\<close> and
  \<^verbatim>\<open>drawVertices\<close> set, and \<^verbatim>\<open>drawSegments\<close> at the value \<open>b\<close> it had, be it true or false.
\<close>

theorem reset_sets_three_keeps_segments:
  "drawControl (onKeyPress \<lparr>key = ''r''\<rparr> (this\<lparr>drawSegments := b\<rparr>)) \<and>
   drawNormals (onKeyPress \<lparr>key = ''r''\<rparr> (this\<lparr>drawSegments := b\<rparr>)) \<and>
   drawVertices (onKeyPress \<lparr>key = ''r''\<rparr> (this\<lparr>drawSegments := b\<rparr>)) \<and>
   drawSegments (onKeyPress \<lparr>key = ''r''\<rparr> (this\<lparr>drawSegments := b\<rparr>)) = b"
  by (simp add: onKeyPress_def setDirty_def)

text \<open>
  C10. Each of the keys \<^verbatim>\<open>c\<close>, \<^verbatim>\<open>n\<close> and \<^verbatim>\<open>v\<close> negates one toggle (\<^verbatim>\<open>drawControl\<close>,
  \<^verbatim>\<open>drawNormals\<close>, \<^verbatim>\<open>drawVertices\<close> respectively) and leaves the other three as they were;
  pressing the same key twice in a row gives back the overlay state before the first press.
\<close>

theorem toggle_keys_involutive:
  "overlayState (onKeyPress \<lparr>key = ''c''\<rparr> this) =
     (\<not> drawControl this, drawNormals this, drawVertices this, drawSegments this) \<and>
   overlayState (onKeyPress \<lparr>key = ''n''\<rparr> this) =
     (drawControl this, \<not> drawNormals this, drawVertices this, drawSegments this) \<and>
   overlayState (onKeyPress \<lparr>key = ''v''\<rparr> this) =
     (drawControl this, drawNormals this, \<not> drawVertices this, drawSegments this) \<and>
   overlayState (onKeyPress \<lparr>key = ''c''\<rparr> (onKeyPress \<lparr>key = ''c''\<rparr> this)) = overlayState this \<and>
   overlayState (onKeyPress \<lparr>key = ''n''\<rparr> (onKeyPress \<lparr>key = ''n''\<rparr> this)) = overlayState this \<and>
   overlayState (onKeyPress \<lparr>key = ''v''\<rparr> (onKeyPress \<lparr>key = ''v''\<rparr> this)) = overlayState this"
  by (simp add: onKeyPress_def setDirty_def overlayState_def)

text \<open>
  C3, as stated, fails: \<^verbatim>\<open>onKeyPress\<close> calls \<^verbatim>\<open>setDirty\<close> after the chain of tests, on every
  path. On a new view the key \<^verbatim>\<open>x\<close> leaves the overlay state as it is and still issues a
  dirty signal.
\<close>

theorem unknown_key_signals_dirty:
  "overlayState (onKeyPress \<lparr>key = ''x''\<rparr> newView) = overlayState newView \<and>
   dirtySignals newView = 0 \<and>
   dirtySignals (onKeyPress \<lparr>key = ''x''\<rparr> newView) = 1"
  by (simp add: onKeyPress_def setDirty_def overlayState_def newView_def)

text \<open>
  C3, amended. Every key press issues one dirty signal, whether or not the key is known and
  whether or not the overlay state changes; a key other than \<^verbatim>\<open>c\<close>, \<^verbatim>\<open>n\<close>, \<^verbatim>\<open>v\<close> and \<^verbatim>\<open>r\<close>
  changes nothing else in the view.
\<close>

theorem key_press_always_signals:
  "dirtySignals (onKeyPress event this) = Suc (dirtySignals this) \<and>
   (key event \<notin> {''c'', ''n'', ''v'', ''r''} \<longrightarrow>
      onKeyPress event this = this\<lparr>dirtySignals := Suc (dirtySignals this)\<rparr>)"
  by (simp add: onKeyPress_def setDirty_def)

theorem key_press_always_signals_witness:
  "dirtySignals (onKeyPress \<lparr>key = ''x''\<rparr> newView) = Suc (dirtySignals newView) \<and>
   onKeyPress \<lparr>key = ''x''\<rparr> newView = newView\<lparr>dirtySignals := Suc (dirtySignals newView)\<rparr>"
  using key_press_always_signals [of "\<lparr>key = ''x''\<rparr>" newView] by simp

section \<open>Normal arrows\<close>

text \<open>
  C4, as stated, fails: an arrow is stroked twice, not three times. Here for the anchor
  (0, 0), the normal (1, 0), the edge type and a scale factor of 1.
\<close>

theorem arrow_example_two_strokes:
  "count_list (drawNormal (Num 0, Num 0) (Num 1, Num 0) (Num 1) Edge) Stroke = 2 \<and>
   count_list (drawNormal (Num 0, Num 0) (Num 1, Num 0) (Num 1) Edge) Stroke \<noteq> 3"
  by (simp add: drawNormal_def Let_def)

text \<open>
  C4, amended. Every call of \<^verbatim>\<open>drawNormal\<close> makes exactly two strokes: the shaft and the
  first wing are one path (from the anchor \<open>a\<close> to the shaft end \<open>e\<close> and on to the wing end
  \<open>w1\<close>), stroked once; the second wing is a path of its own (from \<open>e\<close> to \<open>w2\<close>), stroked
  once.
\<close>

theorem arrow_two_strokes:
  "count_list (drawNormal position normalVector invScaleFactor normalType) Stroke = 2 \<and>
   (\<exists>style a e w1 w2.
      drawNormal position normalVector invScaleFactor normalType =
        [Save, SetStrokeStyle style,
         BeginPath, MoveTo (fst a) (snd a), LineTo (fst e) (snd e), LineTo (fst w1) (snd w1),
         Stroke,
         BeginPath, MoveTo (fst e) (snd e), LineTo (fst w2) (snd w2),
         Stroke,
         Restore])"
  by (simp add: drawNormal_def Let_def)


section \<open>B-quads\<close>

lemma redraw_bQuad_never_line:
  "SetStrokeStyle LINE_STROKE_STYLE \<notin> set (redraw_bQuad dv positions invScaleFactor i)"
  by (simp add: redraw_bQuad_def Let_def drawVertexIfNecessary_def LINE_STROKE_STYLE_def
        CURVE_STROKE_STYLE_def LIGHT_STROKE_STYLE_def)

lemma redraw_bQuad_always_curve:
  "\<exists>before between after.
     redraw_bQuad dv positions invScaleFactor i =
       before @
       [SetStrokeStyle CURVE_STROKE_STYLE,
        QuadraticCurveTo (fst (getPosition positions i 1)) (- snd (getPosition positions i 1))
                         (fst (getPosition positions i 2)) (- snd (getPosition positions i 2)),
        Stroke] @
       between @
       [SetStrokeStyle CURVE_STROKE_STYLE,
        QuadraticCurveTo (fst (getPosition positions i 4)) (- snd (getPosition positions i 4))
                         (fst (getPosition positions i 5)) (- snd (getPosition positions i 5)),
        Stroke] @
       after"
proof -
  let ?dots = "if dv then cornerDots positions invScaleFactor i else []"
  have "redraw_bQuad dv positions invScaleFactor i =
      (?dots @ [BeginPath, MoveTo (fst (getPosition positions i 0))
                                  (- snd (getPosition positions i 0))]) @
      [SetStrokeStyle CURVE_STROKE_STYLE,
       QuadraticCurveTo (fst (getPosition positions i 1)) (- snd (getPosition positions i 1))
                        (fst (getPosition positions i 2)) (- snd (getPosition positions i 2)),
       Stroke] @
      [SetStrokeStyle LIGHT_STROKE_STYLE, BeginPath,
       MoveTo (fst (getPosition positions i 2)) (- snd (getPosition positions i 2)),
       LineTo (fst (getPosition positions i 3)) (- snd (getPosition positions i 3)),
       Stroke, BeginPath,
       MoveTo (fst (getPosition positions i 3)) (- snd (getPosition positions i 3))] @
      [SetStrokeStyle CURVE_STROKE_STYLE,
       QuadraticCurveTo (fst (getPosition positions i 4)) (- snd (getPosition positions i 4))
                        (fst (getPosition positions i 5)) (- snd (getPosition positions i 5)),
       Stroke] @
      [SetStrokeStyle LIGHT_STROKE_STYLE, BeginPath,
       MoveTo (fst (getPosition positions i 5)) (- snd (getPosition positions i 5)),
       LineTo (fst (getPosition positions i 0)) (- snd (getPosition positions i 0)),
       Stroke]"
    by (simp add: redraw_bQuad_def cornerDots_def Let_def)
  then show ?thesis by blast
qed

text \<open>
  C2: the code does not do what the claim says. \<^verbatim>\<open>getPosition\<close> returns the clone of what it
  reads, never \<^verbatim>\<open>null\<close>, so the test \<^verbatim>\<open>!= null\<close> always holds and the branch that draws a
  straight edge in the line colour is never taken (\<open>redraw_bQuad_never_line\<close>,
  \<open>redraw_bQuad_always_curve\<close>). For the B-quad of \<open>lineQuadMesh\<close>, whose two control point
  slots hold \<open>NaN\<close>, both edges are quadratic curves in the curve colour \<^verbatim>\<open>rgb(128, 0, 0)\<close>.
\<close>

theorem absent_control_point_drawn_as_curve:
  "redraw_bQuad False (bQuadVertexPositions lineQuadMesh) (Num 1) 0 =
     [BeginPath, MoveTo (Num 0) (Num 0),
      SetStrokeStyle ''rgb(128, 0, 0)'', QuadraticCurveTo NaN NaN (Num 10) (Num 0), Stroke,
      SetStrokeStyle ''rgb(192, 192, 192)'',
      BeginPath, MoveTo (Num 10) (Num 0), LineTo (Num 10) (Num 10), Stroke,
      BeginPath, MoveTo (Num 10) (Num 10),
      SetStrokeStyle ''rgb(128, 0, 0)'', QuadraticCurveTo NaN NaN (Num 0) (Num 10), Stroke,
      SetStrokeStyle ''rgb(192, 192, 192)'',
      BeginPath, MoveTo (Num 0) (Num 10), LineTo (Num 0) (Num 0), Stroke]"
  by (simp add: redraw_bQuad_def lineQuadMesh_def getPosition_def element_def vec2_clone_def
        toFloat32.simps CURVE_STROKE_STYLE_def LIGHT_STROKE_STYLE_def Let_def)

section \<open>The \<^verbatim>\<open>drawVertices\<close> toggle\<close>

lemma redraw_bQuad_dots:
  "redraw_bQuad True positions invScaleFactor =
     (\<lambda>i. cornerDots positions invScaleFactor i @ redraw_bQuad False positions invScaleFactor i)"
  by (rule ext) (simp add: redraw_bQuad_def cornerDots_def Let_def)

text \<open>
  C1, as stated, fails: \<^verbatim>\<open>redraw\<close> calls \<^verbatim>\<open>drawSegmentVertices\<close> only when \<^verbatim>\<open>drawVertices\<close> is
  set. \<open>segmentMesh\<close> has no B-quad, hence no corner dot to remove, and one segment; turning
  \<^verbatim>\<open>drawVertices\<close> off still changes the frame: the segment's markers, arrows and hull go,
  and nothing is filled or stroked any more.
\<close>

theorem vertices_off_removes_segments:
  "bQuadVertexPositionCount segmentMesh = 0 \<and>
   Fill \<in> set (redraw_calls (newView\<lparr>drawVertices := True\<rparr>) segmentMesh) \<and>
   redraw_calls (newView\<lparr>drawVertices := False\<rparr>) segmentMesh =
     [ClearRect (Num 0) (Num 0) (Num 640) (Num 480), Save, Translate (Num 0) (Num 480),
      Scale (Num 1) (Num 1), SetFont ''12px sans-serif'', SetLineWidth (Num 1), Restore]"
proof (intro conjI)
  show "bQuadVertexPositionCount segmentMesh = 0"
    by (simp add: segmentMesh_def)
  show "Fill \<in> set (redraw_calls (newView\<lparr>drawVertices := True\<rparr>) segmentMesh)"
    by (simp add: redraw_calls_def newView_def segmentMesh_def drawSegmentVertices_def
          drawSegment_def Let_def drawSegmentVertex_def)
  show "redraw_calls (newView\<lparr>drawVertices := False\<rparr>) segmentMesh =
     [ClearRect (Num 0) (Num 0) (Num 640) (Num 480), Save, Translate (Num 0) (Num 480),
      Scale (Num 1) (Num 1), SetFont ''12px sans-serif'', SetLineWidth (Num 1), Restore]"
    by (simp add: redraw_calls_def newView_def segmentMesh_def minus_jsnum_def
          POINT_LABEL_FONT_def)
qed

text \<open>
  C1, amended. For every mesh and every setting of the other toggles, the frame with
  \<^verbatim>\<open>drawVertices\<close> on and the frame with it off start with the same six calls and end with
  \<^verbatim>\<open>restore\<close>. In between, the frame with the toggle on draws, for each B-quad, its corner
  dots and then its edges and connecting strokes, and after the B-quads the whole segment
  path; the frame with the toggle off draws, for each B-quad, the same edges and connecting
  strokes without the dots, and no part of the segment path (no endpoint marker, normal
  arrow, hull, control point marker or raw segment line).
\<close>

theorem vertices_toggle_removes_dots_and_segments:
  "\<exists>prologue. length prologue = 6 \<and>
     redraw_calls (this\<lparr>drawVertices := True\<rparr>) mesh =
       prologue @
       concat (map (\<lambda>i. cornerDots (bQuadVertexPositions mesh)
                           (devicePixelRatio this / scale (camera this)) i @
                         redraw_bQuad False (bQuadVertexPositions mesh)
                           (devicePixelRatio this / scale (camera this)) i)
                   [0..<bQuadVertexPositionCount mesh]) @
       drawSegmentVertices (stencilSegments mesh) (stencilNormals mesh) (stencilSegmentCount mesh)
         [0, 2] (Some 1) 3 (devicePixelRatio this / scale (camera this))
         (drawControl this) (drawNormals this) (drawSegments this) @
       [Restore] \<and>
     redraw_calls (this\<lparr>drawVertices := False\<rparr>) mesh =
       prologue @
       concat (map (\<lambda>i. redraw_bQuad False (bQuadVertexPositions mesh)
                           (devicePixelRatio this / scale (camera this)) i)
                   [0..<bQuadVertexPositionCount mesh]) @
       [Restore]"
  by (simp add: redraw_calls_def Let_def redraw_bQuad_dots)

section \<open>The redraw\<close>

lemma redraw_no_mesh: "meshes this = None \<Longrightarrow> redraw this = Inr this"
  by (simp add: redraw_def PathfinderView_redraw_def)

lemma redraw_no_context:
  "meshes this = Some mesh \<Longrightarrow> context2d (canvas this) = None \<Longrightarrow> redraw this = Inl UnexpectedNull"
  by (simp add: redraw_def PathfinderView_redraw_def unwrapNull_def)

lemma redraw_frame:
  "meshes this = Some mesh \<Longrightarrow> context2d (canvas this) = Some calls \<Longrightarrow>
   redraw this =
     Inr (this\<lparr>canvas := (canvas this)\<lparr>context2d := Some (calls @ redraw_calls this mesh)\<rparr>\<rparr>)"
  by (simp add: redraw_def PathfinderView_redraw_def unwrapNull_def)

lemma emitted_frame:
  "context2d (canvas this) = Some calls \<Longrightarrow>
   emitted this (this\<lparr>canvas := (canvas this)\<lparr>context2d := Some (calls @ frame)\<rparr>\<rparr>) = frame"
  by (simp add: emitted_def received_def)

lemma redraw_calls_head:
  "\<exists>rest. redraw_calls this mesh =
     ClearRect (Num 0) (Num 0) (width (canvas this)) (height (canvas this)) # rest"
  by (simp add: redraw_calls_def Let_def)

lemma redraw_calls_inputs:
  assumes "overlayState a = overlayState b" and "camera a = camera b"
    and "width (canvas a) = width (canvas b)" and "height (canvas a) = height (canvas b)"
    and "devicePixelRatio a = devicePixelRatio b"
  shows "redraw_calls a mesh = redraw_calls b mesh"
proof -
  have "drawControl a = drawControl b" "drawNormals a = drawNormals b"
    "drawVertices a = drawVertices b" "drawSegments a = drawSegments b"
    using assms(1) by (simp_all add: overlayState_def)
  then show ?thesis using assms(2-5) by (simp add: redraw_calls_def Let_def)
qed

lemma redraw_calls_after_frame:
  "redraw_calls (this\<lparr>canvas := (canvas this)\<lparr>context2d := c\<rparr>\<rparr>) mesh = redraw_calls this mesh"
  by (rule redraw_calls_inputs) (simp_all add: overlayState_def)

text \<open>
  C8. Without a mesh, \<^verbatim>\<open>redraw\<close> returns normally and leaves the view, its canvas and the
  calls the context has received as they were: nothing is cleared, nothing is drawn. With a
  mesh, \<^verbatim>\<open>redraw\<close> either fails in \<^verbatim>\<open>unwrapNull\<close> before any call on the context (when the
  canvas has no 2D context), or returns, and then the first call it has made on the context
  is \<^verbatim>\<open>clearRect\<close> over the whole canvas.
\<close>

theorem no_mesh_no_calls_else_clear_first:
  "(meshes this = None \<longrightarrow> redraw this = Inr this) \<and>
   (meshes this \<noteq> None \<and> context2d (canvas this) = None \<longrightarrow> redraw this = Inl UnexpectedNull) \<and>
   (meshes this \<noteq> None \<and> context2d (canvas this) \<noteq> None \<longrightarrow>
      (\<exists>after rest. redraw this = Inr after \<and>
         emitted this after =
           ClearRect (Num 0) (Num 0) (width (canvas this)) (height (canvas this)) # rest))"
proof (intro conjI impI)
  assume "meshes this = None"
  then show "redraw this = Inr this" by (rule redraw_no_mesh)
next
  assume "meshes this \<noteq> None \<and> context2d (canvas this) = None"
  then show "redraw this = Inl UnexpectedNull" by (auto intro: redraw_no_context)
next
  assume "meshes this \<noteq> None \<and> context2d (canvas this) \<noteq> None"
  then obtain mesh calls where m: "meshes this = Some mesh"
    and c: "context2d (canvas this) = Some calls" by auto
  obtain rest where r: "redraw_calls this mesh =
      ClearRect (Num 0) (Num 0) (width (canvas this)) (height (canvas this)) # rest"
    using redraw_calls_head by blast
  show "\<exists>after rest. redraw this = Inr after \<and>
         emitted this after =
           ClearRect (Num 0) (Num 0) (width (canvas this)) (height (canvas this)) # rest"
    using redraw_frame [OF m c] emitted_frame [OF c] r by metis
qed

theorem no_mesh_no_calls_else_clear_first_witness:
  "redraw newView = Inr newView \<and>
   redraw (newView\<lparr>meshes := Some lineQuadMesh,
                    canvas := \<lparr>width = Num 640, height = Num 480, context2d = None\<rparr>\<rparr>) =
     Inl UnexpectedNull \<and>
   (\<exists>after rest. redraw (newView\<lparr>meshes := Some lineQuadMesh\<rparr>) = Inr after \<and>
      emitted (newView\<lparr>meshes := Some lineQuadMesh\<rparr>) after =
        ClearRect (Num 0) (Num 0) (Num 640) (Num 480) # rest)"
  using no_mesh_no_calls_else_clear_first [of newView]
    no_mesh_no_calls_else_clear_first
      [of "newView\<lparr>meshes := Some lineQuadMesh,
                    canvas := \<lparr>width = Num 640, height = Num 480, context2d = None\<rparr>\<rparr>"]
    no_mesh_no_calls_else_clear_first [of "newView\<lparr>meshes := Some lineQuadMesh\<rparr>"]
  by (simp add: newView_def)

lemma performAll_Nil: "performAll extent c [] = c"
  by (simp add: performAll_def)

lemma performAll_Cons: "performAll extent c (x # xs) = performAll extent (perform extent c x) xs"
  by (simp add: performAll_def)

lemma performAll_append:
  "performAll extent c (xs @ ys) = performAll extent (performAll extent c xs) ys"
  by (simp add: performAll_def)

lemma nesting_append:
  "nesting d (xs @ ys) = (case nesting d xs of None \<Rightarrow> None | Some d' \<Rightarrow> nesting d' ys)"
proof (induction xs arbitrary: d)
  case Nil
  then show ?case by simp
next
  case (Cons x xs)
  then show ?case by (cases x; cases d) simp_all
qed

lemma nesting_shift: "nesting d xs = Some d' \<Longrightarrow> nesting (d + k) xs = Some (d' + k)"
proof (induction xs arbitrary: d)
  case Nil
  then show ?case by simp
next
  case (Cons x xs)
  show ?case
  proof (cases x)
    case Save
    then show ?thesis using Cons.IH [of "Suc d"] Cons.prems by simp
  next
    case Restore
    then obtain e where "d = Suc e" using Cons.prems by (cases d) auto
    then show ?thesis using Cons.IH [of e] Cons.prems Restore by simp
  qed (use Cons.IH [of d] Cons.prems in simp_all)
qed

lemma nesting_balanced: "nesting 0 xs = Some 0 \<Longrightarrow> nesting d xs = Some d"
  using nesting_shift [of 0 xs 0 d] by simp

lemma nesting_concat: "(\<And>xs. xs \<in> set xss \<Longrightarrow> nesting 0 xs = Some 0) \<Longrightarrow> nesting d (concat xss) = Some d"
  by (induction xss) (simp_all add: nesting_append nesting_balanced)

lemma saved_performAll:
  "nesting d calls = Some d' \<Longrightarrow> d \<le> length (savedStates c) \<Longrightarrow>
   d' \<le> length (savedStates (performAll extent c calls)) \<and>
   drop d' (savedStates (performAll extent c calls)) = drop d (savedStates c)"
proof (induction calls arbitrary: d c)
  case Nil
  then show ?case by (simp add: performAll_Nil)
next
  case (Cons x xs)
  show ?case
  proof (cases x)
    case Save
    then show ?thesis using Cons.IH [of "Suc d" "perform extent c x"] Cons.prems
      by (simp add: performAll_Cons)
  next
    case Restore
    then obtain e where d: "d = Suc e" using Cons.prems by (cases d) auto
    then obtain s ss where ss: "savedStates c = s # ss" using Cons.prems by (cases "savedStates c") auto
    show ?thesis using Cons.IH [of e "perform extent c x"] Cons.prems Restore d ss
      by (simp add: performAll_Cons)
  qed (use Cons.IH [of d "perform extent c x"] Cons.prems in \<open>simp_all add: performAll_Cons\<close>)
qed

lemma beginsPath_append:
  "beginsPath b (xs @ ys) = (beginsPath b xs \<and> beginsPath (b \<or> BeginPath \<in> set xs) ys)"
proof (induction xs arbitrary: b)
  case Nil
  then show ?case by simp
next
  case (Cons x xs)
  then show ?case by (cases x) auto
qed

lemma beginsPath_mono: "beginsPath b xs \<Longrightarrow> beginsPath True xs"
proof (induction xs arbitrary: b)
  case Nil
  then show ?case by simp
next
  case (Cons x xs)
  then show ?case by (cases x) auto
qed

lemma beginsPath_concat:
  "(\<And>xs. xs \<in> set xss \<Longrightarrow> beginsPath False xs) \<Longrightarrow> beginsPath b (concat xss)"
proof (induction xss arbitrary: b)
  case Nil
  then show ?case by simp
next
  case (Cons xs xss)
  have "beginsPath b xs" using Cons.prems [of xs] beginsPath_mono [of False xs] by (cases b) simp_all
  then show ?case using Cons by (simp add: beginsPath_append)
qed

lemma path_independent:
  "beginsPath b calls \<Longrightarrow>
   drawingState c1 = drawingState c2 \<Longrightarrow> savedStates c1 = savedStates c2 \<Longrightarrow>
   painted c1 = painted c2 \<Longrightarrow> (b \<longrightarrow> currentPath c1 = currentPath c2) \<Longrightarrow>
   drawingState (performAll extent c1 calls) = drawingState (performAll extent c2 calls) \<and>
   savedStates (performAll extent c1 calls) = savedStates (performAll extent c2 calls) \<and>
   painted (performAll extent c1 calls) = painted (performAll extent c2 calls)"
proof (induction calls arbitrary: b c1 c2)
  case Nil
  then show ?case by (simp add: performAll_Nil)
next
  case (Cons x xs)
  show ?case
  proof (cases x)
    case BeginPath
    then show ?thesis using Cons.IH [of True "perform extent c1 x" "perform extent c2 x"] Cons.prems
      by (simp add: performAll_Cons)
  next
    case Restore
    then show ?thesis using Cons.IH [of b "perform extent c1 x" "perform extent c2 x"] Cons.prems
      by (simp add: performAll_Cons split: list.splits)
  next
    case Stroke
    then have "b" "beginsPath True xs" using Cons.prems(1) by auto
    then show ?thesis
      using Cons.IH [of True "perform extent c1 x" "perform extent c2 x"] Cons.prems Stroke
      by (simp add: performAll_Cons)
  next
    case Fill
    then have "b" "beginsPath True xs" using Cons.prems(1) by auto
    then show ?thesis
      using Cons.IH [of True "perform extent c1 x" "perform extent c2 x"] Cons.prems Fill
      by (simp add: performAll_Cons)
  qed (use Cons.IH [of b "perform extent c1 x" "perform extent c2 x"] Cons.prems in
        \<open>simp_all add: performAll_Cons\<close>)
qed

lemma redraw_bQuad_nesting: "nesting 0 (redraw_bQuad dv positions invScaleFactor i) = Some 0"
  by (simp add: redraw_bQuad_def Let_def drawVertexIfNecessary_def)

lemma redraw_bQuad_beginsPath: "beginsPath False (redraw_bQuad dv positions invScaleFactor i)"
  by (simp add: redraw_bQuad_def Let_def drawVertexIfNecessary_def)

lemma drawSegment_nesting:
  "nesting 0 (drawSegment segments normals endpointOffsets controlPointOffset segmentSize
     invScaleFactor dc dn ds j) = Some 0"
  by (simp add: drawSegment_def Let_def drawNormal_def drawSegmentVertex_def
        drawSegmentControlPoint_def nesting_append)

lemma drawSegment_beginsPath:
  "beginsPath False (drawSegment segments normals endpointOffsets controlPointOffset segmentSize
     invScaleFactor dc dn ds j)"
  by (simp add: drawSegment_def Let_def drawNormal_def drawSegmentVertex_def
        drawSegmentControlPoint_def beginsPath_append)

lemma redraw_calls_shape:
  "\<exists>inner. redraw_calls this mesh =
             ClearRect (Num 0) (Num 0) (width (canvas this)) (height (canvas this)) # Save #
             inner @ [Restore] \<and>
           nesting 0 inner = Some 0 \<and> beginsPath False inner"
proof -
  let ?s = "devicePixelRatio this / scale (camera this)"
  let ?quads = "concat (map (redraw_bQuad (drawVertices this) (bQuadVertexPositions mesh) ?s)
                            [0..<bQuadVertexPositionCount mesh])"
  let ?segments = "if drawVertices this
          then drawSegmentVertices (stencilSegments mesh) (stencilNormals mesh)
                 (stencilSegmentCount mesh) [0, 2] (Some 1) 3 ?s
                 (drawControl this) (drawNormals this) (drawSegments this)
          else []"
  let ?inner = "[Translate (fst (translation (camera this)))
                    (height (canvas this) - snd (translation (camera this))),
                 Scale (scale (camera this)) (scale (camera this)),
                 SetFont (''12px '' @ POINT_LABEL_FONT),
                 SetLineWidth ?s] @ ?quads @ ?segments"
  have shape: "redraw_calls this mesh =
      ClearRect (Num 0) (Num 0) (width (canvas this)) (height (canvas this)) # Save #
      ?inner @ [Restore]"
    by (simp add: redraw_calls_def Let_def)
  have nq: "nesting d ?quads = Some d" for d
    by (rule nesting_concat) (auto simp add: redraw_bQuad_nesting)
  have ns: "nesting d ?segments = Some d" for d
    unfolding drawSegmentVertices_def
    by (auto intro!: nesting_concat simp add: drawSegment_nesting)
  have bq: "beginsPath b ?quads" for b
    by (rule beginsPath_concat) (auto simp add: redraw_bQuad_beginsPath)
  have bs: "beginsPath b ?segments" for b
    unfolding drawSegmentVertices_def
    by (auto intro!: beginsPath_concat simp add: drawSegment_beginsPath)
  have "nesting 0 ?inner = Some 0"
    using nq [of 0] ns [of 0] by (simp add: nesting_append)
  moreover have "beginsPath False ?inner"
    using bq bs by (simp add: beginsPath_append)
  ultimately show ?thesis using shape by blast
qed

lemma frame_render:
  assumes "drawingState c = []" and "savedStates c = []"
  shows "drawingState (performAll (width (canvas this), height (canvas this)) c
           (redraw_calls this mesh)) = [] \<and>
         savedStates (performAll (width (canvas this), height (canvas this)) c
           (redraw_calls this mesh)) = [] \<and>
         painted (performAll (width (canvas this), height (canvas this)) c
           (redraw_calls this mesh)) =
         painted (performAll (width (canvas this), height (canvas this)) freshContext
           (redraw_calls this mesh))"
proof -
  let ?e = "(width (canvas this), height (canvas this))"
  obtain inner where shape: "redraw_calls this mesh =
             ClearRect (Num 0) (Num 0) (width (canvas this)) (height (canvas this)) # Save #
             inner @ [Restore]"
    and n: "nesting 0 inner = Some 0" and b: "beginsPath False inner"
    using redraw_calls_shape by blast
  define c2 where "c2 = c\<lparr>painted := [], savedStates := [[]]\<rparr>"
  define f2 where "f2 = freshContext\<lparr>painted := [], savedStates := [[]]\<rparr>"
  have start: "performAll ?e c (redraw_calls this mesh) =
      perform ?e (performAll ?e c2 inner) Restore"
    unfolding shape c2_def using assms
    by (simp add: performAll_Cons performAll_append performAll_Nil)
  have fstart: "performAll ?e freshContext (redraw_calls this mesh) =
      perform ?e (performAll ?e f2 inner) Restore"
    unfolding shape f2_def
    by (simp add: performAll_Cons performAll_append performAll_Nil freshContext_def)
  have "savedStates (performAll ?e c2 inner) = savedStates c2"
    using saved_performAll [OF n, of c2 ?e] by simp
  then have saved: "savedStates (performAll ?e c2 inner) = [[]]" by (simp add: c2_def)
  have same: "drawingState (performAll ?e c2 inner) = drawingState (performAll ?e f2 inner) \<and>
      savedStates (performAll ?e c2 inner) = savedStates (performAll ?e f2 inner) \<and>
      painted (performAll ?e c2 inner) = painted (performAll ?e f2 inner)"
    by (rule path_independent [OF b]) (simp_all add: c2_def f2_def freshContext_def assms)
  show ?thesis
    unfolding start fstart using saved same by simp
qed

lemma surface_after_frame:
  assumes "context2d (canvas this) = Some calls"
  shows "surface (this\<lparr>canvas := (canvas this)\<lparr>context2d := Some (calls @ frame)\<rparr>\<rparr>) =
         performAll (width (canvas this), height (canvas this)) (surface this) frame"
  using assms by (simp add: surface_def received_def performAll_append)

lemma redraw_pixels:
  assumes "meshes this = Some mesh" and "redraw this = Inr after" and "atRest this"
  shows "atRest after \<and>
         pixels after =
           painted (performAll (width (canvas this), height (canvas this)) freshContext
                      (redraw_calls this mesh)) \<and>
         emitted this after = redraw_calls this mesh \<and>
         meshes after = Some mesh \<and> redraw_calls after mesh = redraw_calls this mesh \<and>
         width (canvas after) = width (canvas this) \<and>
         height (canvas after) = height (canvas this) \<and>
         (\<exists>calls. context2d (canvas after) = Some calls)"
proof -
  obtain calls where c: "context2d (canvas this) = Some calls"
    using redraw_no_context [OF assms(1)] assms(2) by (cases "context2d (canvas this)") auto
  let ?frame = "redraw_calls this mesh"
  have after: "after = this\<lparr>canvas := (canvas this)\<lparr>context2d := Some (calls @ ?frame)\<rparr>\<rparr>"
    using redraw_frame [OF assms(1) c] assms(2) by simp
  have s: "surface after =
      performAll (width (canvas this), height (canvas this)) (surface this) ?frame"
    unfolding after by (rule surface_after_frame [OF c])
  have rest: "drawingState (surface this) = []" "savedStates (surface this) = []"
    using assms(3) by (simp_all add: atRest_def)
  note r = frame_render [OF rest, of this mesh]
  have "atRest after" using r by (simp add: atRest_def s)
  moreover have "pixels after =
           painted (performAll (width (canvas this), height (canvas this)) freshContext ?frame)"
    using r by (simp add: pixels_def s)
  moreover have "emitted this after = ?frame"
    unfolding after by (rule emitted_frame [OF c])
  moreover have "redraw_calls after mesh = ?frame"
    unfolding after by (rule redraw_calls_after_frame)
  ultimately show ?thesis using assms(1) by (simp add: after)
qed

text \<open>
  C9. Take two views with the same mesh, overlay state, camera, canvas size and device pixel
  ratio, whatever else they differ in (what their contexts have received and show, the
  dirty signals), both at rest. A \<^verbatim>\<open>redraw\<close> that returns makes the same calls, with the same
  arguments, on the one as on the other; after it the two canvases show the same pixels,
  when they showed the same before or when there is a mesh (the frame then starts by
  clearing the canvas). A second \<^verbatim>\<open>redraw\<close> straight after the first returns as well,
  repeats the calls of the first, and leaves the pixels as the first left them: the frame
  restores the drawing state it found.
\<close>

theorem redraw_deterministic:
  assumes "meshes a = meshes b" and "overlayState a = overlayState b"
    and "camera a = camera b"
    and "width (canvas a) = width (canvas b)" and "height (canvas a) = height (canvas b)"
    and "devicePixelRatio a = devicePixelRatio b"
    and "atRest a" and "atRest b"
    and "redraw a = Inr a'" and "redraw b = Inr b'"
  shows "emitted a a' = emitted b b' \<and>
         (pixels a = pixels b \<or> meshes a \<noteq> None \<longrightarrow> pixels a' = pixels b') \<and>
         atRest a' \<and>
         (\<exists>a''. redraw a' = Inr a'' \<and> emitted a' a'' = emitted a a' \<and>
                pixels a'' = pixels a')"
proof (cases "meshes a")
  case None
  then have "a' = a" "b' = b" using assms redraw_no_mesh [of a] redraw_no_mesh [of b] by simp_all
  then show ?thesis using None redraw_no_mesh [of a] assms(7) by (simp add: emitted_def)
next
  case (Some mesh)
  then have mb: "meshes b = Some mesh" using assms(1) by simp
  note ra = redraw_pixels [OF Some assms(9) assms(7)]
  note rb = redraw_pixels [OF mb assms(10) assms(8)]
  have same: "redraw_calls b mesh = redraw_calls a mesh"
    using redraw_calls_inputs [OF assms(2-6)] by simp
  from ra obtain calls where c': "context2d (canvas a') = Some calls" by blast
  have ma': "meshes a' = Some mesh" using ra by simp
  define a'' where
    "a'' = a'\<lparr>canvas := (canvas a')\<lparr>context2d := Some (calls @ redraw_calls a' mesh)\<rparr>\<rparr>"
  have again: "redraw a' = Inr a''"
    unfolding a''_def by (rule redraw_frame [OF ma' c'])
  have rest': "atRest a'" using ra by simp
  note raa = redraw_pixels [OF ma' again rest']
  have "emitted a a' = emitted b b'" using ra rb same by simp
  moreover have "pixels a' = pixels b'" using ra rb same assms(4,5) by simp
  moreover have "emitted a' a'' = emitted a a'" using ra raa by simp
  moreover have "pixels a'' = pixels a'" using ra raa by simp
  ultimately show ?thesis using again rest' by blast
qed

theorem redraw_deterministic_witness:
  "emitted (newView\<lparr>meshes := Some lineQuadMesh\<rparr>)
           (projr (redraw (newView\<lparr>meshes := Some lineQuadMesh\<rparr>))) =
   emitted (newView\<lparr>meshes := Some lineQuadMesh,
                     canvas := \<lparr>width = Num 640, height = Num 480, context2d = Some [Fill]\<rparr>,
                     dirtySignals := 3\<rparr>)
           (projr (redraw (newView\<lparr>meshes := Some lineQuadMesh,
                     canvas := \<lparr>width = Num 640, height = Num 480, context2d = Some [Fill]\<rparr>,
                     dirtySignals := 3\<rparr>))) \<and>
   pixels (newView\<lparr>meshes := Some lineQuadMesh\<rparr>) \<noteq>
   pixels (newView\<lparr>meshes := Some lineQuadMesh,
                     canvas := \<lparr>width = Num 640, height = Num 480, context2d = Some [Fill]\<rparr>,
                     dirtySignals := 3\<rparr>) \<and>
   pixels (projr (redraw (newView\<lparr>meshes := Some lineQuadMesh\<rparr>))) =
   pixels (projr (redraw (newView\<lparr>meshes := Some lineQuadMesh,
                     canvas := \<lparr>width = Num 640, height = Num 480, context2d = Some [Fill]\<rparr>,
                     dirtySignals := 3\<rparr>))) \<and>
   (\<exists>a''. redraw (projr (redraw (newView\<lparr>meshes := Some lineQuadMesh\<rparr>))) = Inr a'' \<and>
      emitted (projr (redraw (newView\<lparr>meshes := Some lineQuadMesh\<rparr>))) a'' =
      emitted (newView\<lparr>meshes := Some lineQuadMesh\<rparr>)
              (projr (redraw (newView\<lparr>meshes := Some lineQuadMesh\<rparr>))) \<and>
      pixels a'' = pixels (projr (redraw (newView\<lparr>meshes := Some lineQuadMesh\<rparr>))))"
proof -
  let ?a = "newView\<lparr>meshes := Some lineQuadMesh\<rparr>"
  let ?b = "newView\<lparr>meshes := Some lineQuadMesh,
                     canvas := \<lparr>width = Num 640, height = Num 480, context2d = Some [Fill]\<rparr>,
                     dirtySignals := 3\<rparr>"
  have "meshes ?a = Some lineQuadMesh" "context2d (canvas ?a) = Some []"
    by (simp_all add: newView_def)
  then have ra: "redraw ?a = Inr (projr (redraw ?a))"
    using redraw_frame [of ?a lineQuadMesh "[]"] by simp
  have "meshes ?b = Some lineQuadMesh" "context2d (canvas ?b) = Some [Fill]"
    by simp_all
  then have rb: "redraw ?b = Inr (projr (redraw ?b))"
    using redraw_frame [of ?b lineQuadMesh "[Fill]"] by simp
  have resta: "atRest ?a"
    by (simp add: atRest_def surface_def received_def performAll_def newView_def
          freshContext_def)
  have restb: "atRest ?b"
    by (simp add: atRest_def surface_def received_def performAll_def newView_def
          freshContext_def)
  have differ: "pixels ?a \<noteq> pixels ?b"
    by (simp add: pixels_def surface_def received_def performAll_def newView_def
          freshContext_def)
  have m: "meshes ?a \<noteq> None" by simp
  have all: "emitted ?a (projr (redraw ?a)) = emitted ?b (projr (redraw ?b)) \<and>
      (pixels ?a = pixels ?b \<or> meshes ?a \<noteq> None \<longrightarrow>
         pixels (projr (redraw ?a)) = pixels (projr (redraw ?b))) \<and>
      atRest (projr (redraw ?a)) \<and>
      (\<exists>a''. redraw (projr (redraw ?a)) = Inr a'' \<and>
         emitted (projr (redraw ?a)) a'' = emitted ?a (projr (redraw ?a)) \<and>
         pixels a'' = pixels (projr (redraw ?a)))"
    by (rule redraw_deterministic [of ?a ?b, OF _ _ _ _ _ _ resta restb ra rb])
       (simp_all add: newView_def overlayState_def)
  from all m differ show ?thesis by blast
qed

section \<open>The flip of the y axis\<close>

lemma tracePoints_append: "tracePoints (xs @ ys) = tracePoints xs @ tracePoints ys"
  by (simp add: tracePoints_def)

lemma tracePoints_Cons: "tracePoints (x # xs) = callPoints x @ tracePoints xs"
  by (simp add: tracePoints_def)

lemma tracePoints_Nil: "tracePoints [] = []"
  by (simp add: tracePoints_def)

lemma tracePoints_concat:
  "set (tracePoints (concat xss)) = (\<Union>xs \<in> set xss. set (tracePoints xs))"
  by (induction xss) (simp_all add: tracePoints_Nil tracePoints_append)

lemma bQuad_points:
  "set (tracePoints (redraw_bQuad dv positions invScaleFactor i)) \<subseteq>
     (\<lambda>k. flipY (getPosition positions i k)) ` {..<6}"
proof -
  have six: "{..<6::nat} = {0, 1, 2, 3, 4, 5}" by auto
  show ?thesis
    unfolding six
    by (simp add: redraw_bQuad_def Let_def drawVertexIfNecessary_def tracePoints_Cons
          tracePoints_append tracePoints_Nil flipY_def)
qed

lemma rotateJs_minus:
  "rotateJs (- a) v =
     (Math_cos a * fst v + Math_sin a * snd v, - (Math_sin a * fst v) + Math_cos a * snd v)"
  by (simp add: rotateJs_def Math_cos_minus Math_sin_minus minus_jsnum_def jsnum_minus_mult
        jsnum_minus_minus)

lemma arrow_shaft_flipped:
  "vec2_clone (Some (x + l * nx)) (Some (- y + l * - ny)) =
   flipY (vec2_clone (Some (x + l * nx)) (Some (y + l * ny)))"
  by (simp add: vec2_clone_def flipY_def toFloat32_minus [symmetric] jsnum_minus_add
        jsnum_mult_minus)

lemma arrow_points:
  "tracePoints (drawNormal position normalVector invScaleFactor normalType) =
     map flipY (meshArrow position normalVector invScaleFactor normalType)"
proof -
  have w1: "a + h * (s * nx - c * ny) = - (- a + h * (- (s * nx) + c * ny))"
    for a h s c nx ny :: jsnum
  proof -
    have "- (- a + h * (- (s * nx) + c * ny)) = - (- a) + - (h * (- (s * nx) + c * ny))"
      by (rule jsnum_minus_add)
    also have "\<dots> = a + h * - (- (s * nx) + c * ny)"
      by (simp only: jsnum_minus_minus jsnum_mult_minus)
    also have "\<dots> = a + h * (s * nx + - (c * ny))"
      by (simp only: jsnum_minus_add jsnum_minus_minus)
    also have "\<dots> = a + h * (s * nx - c * ny)"
      by (simp only: minus_jsnum_def)
    finally show ?thesis by simp
  qed
  have w2: "a - h * (c * ny + s * nx) = - (- a + h * (s * nx + c * ny))"
    for a h s c nx ny :: jsnum
  proof -
    have "- (- a + h * (s * nx + c * ny)) = - (- a) + - (h * (s * nx + c * ny))"
      by (rule jsnum_minus_add)
    also have "\<dots> = a + - (h * (c * ny + s * nx))"
      by (simp only: jsnum_minus_minus jsnum_add_commute [of "s * nx"])
    also have "\<dots> = a - h * (c * ny + s * nx)"
      by (simp only: minus_jsnum_def)
    finally show ?thesis by simp
  qed
  show ?thesis
    apply (simp add: drawNormal_def meshArrow_def Let_def tracePoints_Cons tracePoints_Nil
        arrow_shaft_flipped rotateJs_minus)
    apply (simp add: flipY_def rotateJs_def w1 w2 jsnum_minus_minus)
    done
qed

lemma segment_points:
  "set (tracePoints (drawSegment segments normals endpointOffsets controlPointOffset segmentSize
          invScaleFactor dc dn ds j)) \<subseteq>
     flipY ` set (segmentMeshPoints segments normals endpointOffsets controlPointOffset
                    segmentSize invScaleFactor j)"
  by (auto simp add: drawSegment_def Let_def drawSegmentVertex_def drawSegmentControlPoint_def
        tracePoints_Cons tracePoints_append tracePoints_Nil arrow_points segmentMeshPoints_def
        segmentPoint_def flipY_def)

lemma bQuads_points:
  assumes "pt \<in> set (tracePoints (concat (map (redraw_bQuad dv positions invScaleFactor) [0..<n])))"
  shows "\<exists>i<n. \<exists>k<6. pt = flipY (getPosition positions i k)"
proof -
  from assms obtain i where i: "i < n"
    and pt: "pt \<in> set (tracePoints (redraw_bQuad dv positions invScaleFactor i))"
    by (auto simp add: tracePoints_concat)
  from pt bQuad_points obtain k where "k < 6" "pt = flipY (getPosition positions i k)"
    by blast
  with i show ?thesis by blast
qed

lemma segments_points:
  assumes "pt \<in> set (tracePoints (drawSegmentVertices segments normals m endpointOffsets
                    controlPointOffset segmentSize invScaleFactor dc dn ds))"
  shows "\<exists>j<m. pt \<in> flipY ` set (segmentMeshPoints segments normals endpointOffsets
                    controlPointOffset segmentSize invScaleFactor j)"
proof -
  from assms obtain j where j: "j < m"
    and pt: "pt \<in> set (tracePoints (drawSegment segments normals endpointOffsets
                    controlPointOffset segmentSize invScaleFactor dc dn ds j))"
    by (auto simp add: tracePoints_concat drawSegmentVertices_def)
  from pt segment_points
  have "pt \<in> flipY ` set (segmentMeshPoints segments normals endpointOffsets
                    controlPointOffset segmentSize invScaleFactor j)"
    by blast
  with j show ?thesis by blast
qed

lemma frame_points:
  "set (tracePoints (redraw_calls this mesh)) =
     set (tracePoints (concat (map (redraw_bQuad (drawVertices this) (bQuadVertexPositions mesh)
                                      (devicePixelRatio this / scale (camera this)))
                                   [0..<bQuadVertexPositionCount mesh]))) \<union>
     (if drawVertices this
      then set (tracePoints (drawSegmentVertices (stencilSegments mesh) (stencilNormals mesh)
                  (stencilSegmentCount mesh) [0, 2] (Some 1) 3
                  (devicePixelRatio this / scale (camera this))
                  (drawControl this) (drawNormals this) (drawSegments this)))
      else {})"
  by (simp add: redraw_calls_def Let_def tracePoints_Cons tracePoints_append tracePoints_Nil)

text \<open>
  C6. Every point that \<^verbatim>\<open>redraw\<close> passes to the drawing surface is \<open>(x, -y)\<close> for a point
  \<open>(x, y)\<close> of the mesh. In the B-quad path (corner dots, edges, connecting strokes) it is
  one of the six points read for a B-quad. In the segment path (endpoint markers, hull,
  control point marker, chord, arrows) it is one of the three points read for a segment, or
  a point of the arrow of the normal at one of them; and the points that \<^verbatim>\<open>drawNormal\<close>
  passes are, one for one, the points of the arrow in the coordinates of the mesh, flipped:
  the anchor, the end of the shaft and the ends of both wings.
\<close>

theorem rendered_points_are_flipped_mesh_points:
  "(\<forall>pt \<in> set (tracePoints (redraw_calls this mesh)).
      (\<exists>i<bQuadVertexPositionCount mesh. \<exists>k<6.
         pt = flipY (getPosition (bQuadVertexPositions mesh) i k)) \<or>
      (\<exists>j<stencilSegmentCount mesh.
         pt \<in> flipY ` set (segmentMeshPoints (stencilSegments mesh) (stencilNormals mesh)
                            [0, 2] (Some 1) 3 (devicePixelRatio this / scale (camera this)) j))) \<and>
   (\<forall>pt \<in> set (tracePoints (concat (map (redraw_bQuad dv positions invScaleFactor) [0..<n]))).
      \<exists>i<n. \<exists>k<6. pt = flipY (getPosition positions i k)) \<and>
   (\<forall>pt \<in> set (tracePoints (drawSegmentVertices segments normals m endpointOffsets
                    controlPointOffset segmentSize invScaleFactor dc dn ds)).
      \<exists>j<m. pt \<in> flipY ` set (segmentMeshPoints segments normals endpointOffsets
                               controlPointOffset segmentSize invScaleFactor j)) \<and>
   tracePoints (drawNormal position normalVector invScaleFactor normalType) =
     map flipY (meshArrow position normalVector invScaleFactor normalType)"
proof (intro conjI ballI)
  fix pt
  assume "pt \<in> set (tracePoints (redraw_calls this mesh))"
  then consider
    "pt \<in> set (tracePoints (concat (map (redraw_bQuad (drawVertices this)
        (bQuadVertexPositions mesh) (devicePixelRatio this / scale (camera this)))
        [0..<bQuadVertexPositionCount mesh])))"
    | "pt \<in> set (tracePoints (drawSegmentVertices (stencilSegments mesh) (stencilNormals mesh)
                  (stencilSegmentCount mesh) [0, 2] (Some 1) 3
                  (devicePixelRatio this / scale (camera this))
                  (drawControl this) (drawNormals this) (drawSegments this)))"
    unfolding frame_points by (auto split: if_splits)
  then show "(\<exists>i<bQuadVertexPositionCount mesh. \<exists>k<6.
         pt = flipY (getPosition (bQuadVertexPositions mesh) i k)) \<or>
      (\<exists>j<stencilSegmentCount mesh.
         pt \<in> flipY ` set (segmentMeshPoints (stencilSegments mesh) (stencilNormals mesh)
                            [0, 2] (Some 1) 3 (devicePixelRatio this / scale (camera this)) j))"
  proof cases
    case 1
    then show ?thesis by (rule disjI1 [OF bQuads_points])
  next
    case 2
    then show ?thesis by (rule disjI2 [OF segments_points])
  qed
next
  fix pt
  assume "pt \<in> set (tracePoints (concat (map (redraw_bQuad dv positions invScaleFactor) [0..<n])))"
  then show "\<exists>i<n. \<exists>k<6. pt = flipY (getPosition positions i k)" by (rule bQuads_points)
next
  fix pt
  assume "pt \<in> set (tracePoints (drawSegmentVertices segments normals m endpointOffsets
                    controlPointOffset segmentSize invScaleFactor dc dn ds))"
  then show "\<exists>j<m. pt \<in> flipY ` set (segmentMeshPoints segments normals endpointOffsets
                               controlPointOffset segmentSize invScaleFactor j)"
    by (rule segments_points)
next
  show "tracePoints (drawNormal position normalVector invScaleFactor normalType) =
     map flipY (meshArrow position normalVector invScaleFactor normalType)"
    by (rule arrow_points)
qed

theorem rendered_points_are_flipped_mesh_points_witness:
  "(Num 10, Num 10) \<in>
     set (tracePoints (concat (map (redraw_bQuad True (bQuadVertexPositions lineQuadMesh) (Num 1))
                                   [0..<1]))) \<and>
   (\<exists>i<1. \<exists>k<6. (Num 10, Num 10) = flipY (getPosition (bQuadVertexPositions lineQuadMesh) i k)) \<and>
   (Num 1, Num (- 16)) \<in>
     set (tracePoints (drawSegmentVertices (stencilSegments segmentMesh)
            (stencilNormals segmentMesh) 1 [0, 2] (Some 1) 3 (Num 1) True True False)) \<and>
   (\<exists>j<1. (Num 1, Num (- 16)) \<in>
      flipY ` set (segmentMeshPoints (stencilSegments segmentMesh) (stencilNormals segmentMesh)
                     [0, 2] (Some 1) 3 (Num 1) j))"
proof -
  have q: "(Num 10, Num 10) \<in>
     set (tracePoints (concat (map (redraw_bQuad True (bQuadVertexPositions lineQuadMesh) (Num 1))
                                   [0..<1])))"
    by (simp add: redraw_bQuad_def Let_def lineQuadMesh_def getPosition_def element_def
          vec2_clone_def tracePoints_Cons tracePoints_append tracePoints_Nil
          drawVertexIfNecessary_def)
  have s: "(Num 1, Num (- 16)) \<in>
     set (tracePoints (drawSegmentVertices (stencilSegments segmentMesh)
            (stencilNormals segmentMesh) 1 [0, 2] (Some 1) 3 (Num 1) True True False))"
    by (simp add: drawSegmentVertices_def drawSegment_def Let_def segmentMesh_def slot_def
          offsetAt_def element_def vec2_clone_def tracePoints_Cons tracePoints_append
          tracePoints_Nil drawNormal_def)
  note flipped =
    rendered_points_are_flipped_mesh_points [where dv = True
      and positions = "bQuadVertexPositions lineQuadMesh" and invScaleFactor = "Num 1" and n = 1
      and segments = "stencilSegments segmentMesh" and normals = "stencilNormals segmentMesh"
      and m = 1 and endpointOffsets = "[0, 2]" and controlPointOffset = "Some 1"
      and segmentSize = 3 and dc = True and dn = True and ds = False]
  from flipped have
    "\<forall>pt \<in> set (tracePoints (concat (map (redraw_bQuad True (bQuadVertexPositions lineQuadMesh)
                                            (Num 1)) [0..<1]))).
       \<exists>i<1. \<exists>k<6. pt = flipY (getPosition (bQuadVertexPositions lineQuadMesh) i k)"
    by (rule conjunct1 [OF conjunct2])
  then have q': "\<exists>i<1. \<exists>k<6. (Num 10, Num 10) =
      flipY (getPosition (bQuadVertexPositions lineQuadMesh) i k)"
    using q by (rule bspec)
  from flipped have
    "\<forall>pt \<in> set (tracePoints (drawSegmentVertices (stencilSegments segmentMesh)
            (stencilNormals segmentMesh) 1 [0, 2] (Some 1) 3 (Num 1) True True False)).
       \<exists>j<1. pt \<in>
         flipY ` set (segmentMeshPoints (stencilSegments segmentMesh)
                        (stencilNormals segmentMesh) [0, 2] (Some 1) 3 (Num 1) j)"
    by (rule conjunct1 [OF conjunct2 [OF conjunct2]])
  then have s': "\<exists>j<1. (Num 1, Num (- 16)) \<in>
      flipY ` set (segmentMeshPoints (stencilSegments segmentMesh) (stencilNormals segmentMesh)
                     [0, 2] (Some 1) 3 (Num 1) j)"
    using s by (rule bspec)
  from q q' s s' show ?thesis by (intro conjI)
qed

end
